theory Spec2Isabelle
  imports Main "HOL-Library.AList" "HOL-Library.Sublist"
begin

section \<open>aws-sso-config: data model\<close>

text \<open>
  The program is one Go file, \<^verbatim>\<open>main.go\<close>, with four functions besides \<^verbatim>\<open>main\<close>:
  \<^verbatim>\<open>readSSOToken\<close>, \<^verbatim>\<open>listSSOAccounts\<close>, \<^verbatim>\<open>validateRoleForAccount\<close> and
  \<^verbatim>\<open>updateAWSConfig\<close>. Each is embedded below as a HOL function of the same name.
  The global \<^verbatim>\<open>opts\<close> becomes an explicit argument, the file system and the remote
  service become explicit arguments, and every error return and every nil-pointer
  dereference of the source is a branch that yields a value of type \<open>error\<close>.
  Printing to standard output does not influence control flow and is not modelled;
  neither is \<^verbatim>\<open>main\<close>, which only calls the three stages in turn and exits on an error.
\<close>

datatype error =
    ReadDirError          \<comment> \<open>\<^verbatim>\<open>os.ReadDir\<close> failed\<close>
  | TokenNotFound         \<comment> \<open>"Unable to find an AWS SSO token for domain ..."\<close>
  | ReadFileError         \<comment> \<open>\<^verbatim>\<open>os.ReadFile\<close> of the selected file failed\<close>
  | UnmarshalError        \<comment> \<open>\<^verbatim>\<open>json.Unmarshal\<close> of the selected file failed\<close>
  | TransportError        \<comment> \<open>a remote call returned an error\<close>
  | LoadError             \<comment> \<open>\<^verbatim>\<open>ini.Load\<close> failed\<close>
  | SaveError             \<comment> \<open>\<^verbatim>\<open>cfg.SaveTo\<close> failed\<close>
  | EmptySectionName      \<comment> \<open>\<^verbatim>\<open>cfg.NewSection("")\<close>\<close>
  | SectionNotExist       \<comment> \<open>\<^verbatim>\<open>cfg.GetSection\<close> of a missing section\<close>
  | NilDereference        \<comment> \<open>panic: \<^verbatim>\<open>*p\<close> with \<^verbatim>\<open>p == nil\<close>\<close>

record SSOToken =
  AccessToken :: string
  TokenRegion :: string   \<comment> \<open>field \<^verbatim>\<open>Region\<close> of \<^verbatim>\<open>SSOToken\<close>\<close>
  StartURL :: string

record Options =
  DryRun :: bool
  ProfilePrefix :: string
  Region :: string
  RoleName :: string
  StartDomain :: string
  Remove :: bool

text \<open>
  \<^verbatim>\<open>types.AccountInfo\<close> and \<^verbatim>\<open>types.RoleInfo\<close> of the AWS SDK hold pointers to strings:
  \<open>None\<close> is the nil pointer. A Go string is kept as a \<open>string\<close> wherever the program
  only compares or copies it; the account's display name, which the program edits
  character by character, is kept as the list of its runes (code points).
\<close>

type_synonym rune = int

record AccountInfo =
  AccountId :: "string option"
  AccountName :: "rune list option"
  EmailAddress :: "string option"

record RoleInfo =
  RoleInfo_RoleName :: "string option"   \<comment> \<open>field \<^verbatim>\<open>RoleName\<close> of \<^verbatim>\<open>types.RoleInfo\<close>\<close>

section \<open>Go's \<^verbatim>\<open>strings\<close> and \<^verbatim>\<open>unicode\<close> functions used by the program\<close>

text \<open>
  \<^verbatim>\<open>unicode.ToLower\<close> and \<^verbatim>\<open>unicode.IsSpace\<close> decide ASCII (respectively Latin-1)
  runes by comparison and every other rune by a table of the Go runtime. The tables are
  parameters.
\<close>

record unicode_tables =
  To_LowerCase :: "rune \<Rightarrow> rune"     \<comment> \<open>\<^verbatim>\<open>unicode.To(LowerCase, r)\<close>, used for \<open>r > 127\<close>\<close>
  White_Space :: "rune \<Rightarrow> bool"      \<comment> \<open>the \<^verbatim>\<open>White_Space\<close> range table, used outside Latin-1\<close>

definition unicode_ToLower :: "unicode_tables \<Rightarrow> rune \<Rightarrow> rune" where
  "unicode_ToLower U r =
     (if r \<le> 127 then (if 65 \<le> r \<and> r \<le> 90 then r + 32 else r)
      else To_LowerCase U r)"

definition unicode_IsSpace :: "unicode_tables \<Rightarrow> rune \<Rightarrow> bool" where
  "unicode_IsSpace U r =
     (if 0 \<le> r \<and> r \<le> 255
      then (r = 9 \<or> r = 10 \<or> r = 11 \<or> r = 12 \<or> r = 13 \<or> r = 32 \<or> r = 133 \<or> r = 160)
      else White_Space U r)"

definition strings_TrimSpace :: "unicode_tables \<Rightarrow> rune list \<Rightarrow> rune list" where
  "strings_TrimSpace U s =
     rev (dropWhile (unicode_IsSpace U) (rev (dropWhile (unicode_IsSpace U) s)))"

definition strings_ToLower :: "unicode_tables \<Rightarrow> rune list \<Rightarrow> rune list" where
  "strings_ToLower U s = map (unicode_ToLower U) s"

text \<open>\<^verbatim>\<open>strings.ReplaceAll(s, old, new)\<close> where \<open>old\<close> and \<open>new\<close> are one rune each.\<close>

definition strings_ReplaceAll :: "rune list \<Rightarrow> rune \<Rightarrow> rune \<Rightarrow> rune list" where
  "strings_ReplaceAll s old new = map (\<lambda>r. if r = old then new else r) s"

text \<open>\<^verbatim>\<open>strings.Map\<close>: a rune mapped to a negative value is dropped.\<close>

definition strings_Map :: "(rune \<Rightarrow> rune) \<Rightarrow> rune list \<Rightarrow> rune list" where
  "strings_Map mapping s = filter (\<lambda>r. 0 \<le> r) (map mapping s)"

text \<open>
  The anonymous function of \<^verbatim>\<open>updateAWSConfig\<close>:
  \<^verbatim>\<open>'a' = 97, 'z' = 122, '0' = 48, '9' = 57, '-' = 45\<close>.
\<close>

definition keepRune :: "rune \<Rightarrow> rune" where
  "keepRune r =
     (if (97 \<le> r \<and> r \<le> 122) \<or> (48 \<le> r \<and> r \<le> 57) \<or> r = 45 then r else - 1)"

text \<open>Lines 227 to 235: the sanitised account name.\<close>

definition accountNameOf :: "unicode_tables \<Rightarrow> rune list \<Rightarrow> rune list" where
  "accountNameOf U name =
     strings_Map keepRune
       (strings_ReplaceAll (strings_ToLower U (strings_TrimSpace U name)) 32 45)"

text \<open>
  The runes of an ASCII literal, and the bytes of a string of ASCII runes (every rune
  that \<open>keepRune\<close> keeps is ASCII, and the UTF-8 encoding of an ASCII rune is itself).
\<close>

definition ascii_runes :: "string \<Rightarrow> rune list" where
  "ascii_runes s = map of_char s"

definition ascii_string :: "rune list \<Rightarrow> string" where
  "ascii_string rs = map char_of rs"

text \<open>\<^verbatim>\<open>strings.HasSuffix\<close> and \<^verbatim>\<open>strings.Contains\<close>, on bytes.\<close>

definition strings_HasSuffix :: "string \<Rightarrow> string \<Rightarrow> bool" where
  "strings_HasSuffix s suf =
     (length suf \<le> length s \<and> drop (length s - length suf) s = suf)"

fun strings_Contains :: "string \<Rightarrow> string \<Rightarrow> bool" where
  "strings_Contains [] substr = (substr = [])"
| "strings_Contains (c # s) substr = (prefix substr (c # s) \<or> strings_Contains s substr)"

section \<open>The configuration file and the \<^verbatim>\<open>ini\<close> primitives\<close>

text \<open>
  Modelled from the spec: the package \<^verbatim>\<open>gopkg.in/ini.v1\<close> is an external collaborator
  "providing load/section/key/save primitives"; its code is not part of the repository.
  A file is the list of its sections in file order, a section is its name and the list
  of its keys with their values in order. Section names are unique in a file that the
  package has loaded, and the name \<^verbatim>\<open>""\<close> stands for the section \<^verbatim>\<open>DEFAULT\<close>, which
  holds the keys above the first section header. Keys are looked up in their own
  section only and values are read as written.

  A \<^verbatim>\<open>*ini.Section\<close> is a pointer into the file: the model refers to a section by its
  name, and writing through the pointer updates the file.
\<close>

type_synonym ini_Key = "string \<times> string"
type_synonym ini_Section = "string \<times> ini_Key list"
type_synonym ini_File = "ini_Section list"

definition DefaultSection :: string where
  "DefaultSection = ''DEFAULT''"

definition ini_Empty :: ini_File where
  "ini_Empty = [(DefaultSection, [])]"

definition section_Name :: "ini_Section \<Rightarrow> string" where
  "section_Name s = fst s"

definition section_HasKey :: "ini_Section \<Rightarrow> string \<Rightarrow> bool" where
  "section_HasKey s k = (map_of (snd s) k \<noteq> None)"

text \<open>\<^verbatim>\<open>section.Key(k).String()\<close>: a key that does not exist reads as the empty string.\<close>

definition key_String :: "ini_Section \<Rightarrow> string \<Rightarrow> string" where
  "key_String s k = (case map_of (snd s) k of None \<Rightarrow> [] | Some v \<Rightarrow> v)"

definition section_ref :: "string \<Rightarrow> string" where
  "section_ref name = (if name = [] then DefaultSection else name)"

definition file_Sections :: "ini_File \<Rightarrow> ini_Section list" where
  "file_Sections cfg = cfg"

definition file_HasSection :: "ini_File \<Rightarrow> string \<Rightarrow> bool" where
  "file_HasSection cfg name = (map_of cfg (section_ref name) \<noteq> None)"

definition file_GetSection :: "ini_File \<Rightarrow> string \<Rightarrow> error + string" where
  "file_GetSection cfg name =
     (case map_of cfg (section_ref name) of
        None \<Rightarrow> Inl SectionNotExist
      | Some keys \<Rightarrow> Inr (section_ref name))"

definition file_NewSection :: "ini_File \<Rightarrow> string \<Rightarrow> error + (string \<times> ini_File)" where
  "file_NewSection cfg name =
     (if name = [] then Inl EmptySectionName
      else if name \<in> set (map fst cfg) then Inr (name, cfg)
      else Inr (name, cfg @ [(name, [])]))"

definition file_DeleteSection :: "ini_File \<Rightarrow> string \<Rightarrow> ini_File" where
  "file_DeleteSection cfg name = AList.delete (section_ref name) cfg"

text \<open>
  \<^verbatim>\<open>section.Key(k).SetValue(v)\<close> on the section that \<open>sec\<close> refers to: the key is created
  at the end of the section when it does not exist.
\<close>

definition key_SetValue :: "ini_File \<Rightarrow> string \<Rightarrow> string \<Rightarrow> string \<Rightarrow> ini_File" where
  "key_SetValue cfg sec k v = AList.map_entry sec (AList.update k v) cfg"

text \<open>
  The file at \<^verbatim>\<open>configPath\<close>: its content, as the file that \<^verbatim>\<open>ini.Load\<close> parses it to
  (\<open>None\<close> when it cannot be loaded), and whether it can be written.
\<close>

record config_file =
  content :: "ini_File option"
  writable :: bool

definition ini_Load :: "config_file \<Rightarrow> error + ini_File" where
  "ini_Load fs = (case content fs of None \<Rightarrow> Inl LoadError | Some cfg \<Rightarrow> Inr cfg)"

definition file_SaveTo :: "ini_File \<Rightarrow> config_file \<Rightarrow> error option \<times> config_file" where
  "file_SaveTo cfg fs =
     (if writable fs then (None, fs\<lparr>content := Some cfg\<rparr>) else (Some SaveError, fs))"

section \<open>\<^verbatim>\<open>updateAWSConfig\<close>\<close>

text \<open>
  Lines 240 to 256, the loop over the sections that \<^verbatim>\<open>cfg.Sections()\<close> returned when
  the loop began; \<open>cfg\<close> is the file as the deletions so far have left it. The account's
  id is dereferenced only after the start URL has matched (\<^verbatim>\<open>&&\<close> evaluates left to right).
\<close>

fun removeSections ::
  "Options \<Rightarrow> string \<Rightarrow> string \<Rightarrow> AccountInfo \<Rightarrow> ini_Section list \<Rightarrow> ini_File \<Rightarrow> error + ini_File"
where
  "removeSections opts startURL region account [] cfg = Inr cfg"
| "removeSections opts startURL region account (section # rest) cfg =
     (if section_HasKey section ''sso_start_url'' \<and> section_HasKey section ''sso_account_id'' \<and>
         section_HasKey section ''sso_role_name'' \<and> section_HasKey section ''region''
      then
        (if key_String section ''sso_start_url'' = startURL then
           (case AccountId account of
              None \<Rightarrow> Inl NilDereference
            | Some accountId \<Rightarrow>
                if key_String section ''sso_account_id'' = accountId \<and>
                   key_String section ''sso_role_name'' = RoleName opts \<and>
                   key_String section ''region'' = region
                then removeSections opts startURL region account rest
                       (if \<not> DryRun opts then file_DeleteSection cfg (section_Name section) else cfg)
                else removeSections opts startURL region account rest cfg)
         else removeSections opts startURL region account rest cfg)
      else removeSections opts startURL region account rest cfg)"

text \<open>Lines 272 to 278: fetch the section, or create it.\<close>

definition getOrNewSection :: "ini_File \<Rightarrow> string \<Rightarrow> error + (string \<times> ini_File)" where
  "getOrNewSection cfg profileName =
     (case file_GetSection cfg profileName of
        Inr section \<Rightarrow> Inr (section, cfg)
      | Inl err \<Rightarrow> file_NewSection cfg profileName)"

text \<open>
  One iteration of the loop over the accounts (lines 226 to 285); \<open>profilePrefix\<close> is the
  prefix after line 223 has added the hyphen.
\<close>

definition updateAccount ::
  "unicode_tables \<Rightarrow> Options \<Rightarrow> string \<Rightarrow> string \<Rightarrow> string \<Rightarrow> ini_File \<Rightarrow> AccountInfo \<Rightarrow> error + ini_File"
where
  "updateAccount U opts startURL region profilePrefix cfg account =
     (case AccountName account of
        None \<Rightarrow> Inl NilDereference
      | Some name \<Rightarrow>
          let profileName = profilePrefix @ ascii_string (accountNameOf U name) in
          if Remove opts then
            removeSections opts startURL region account (file_Sections cfg) cfg
          else if DryRun opts then
            (case AccountId account of None \<Rightarrow> Inl NilDereference | Some accountId \<Rightarrow> Inr cfg)
          else
            (case getOrNewSection cfg profileName of
               Inl err \<Rightarrow> Inl err
             | Inr (section, cfg1) \<Rightarrow>
                 let cfg2 = key_SetValue cfg1 section ''sso_start_url'' startURL;
                     cfg3 = key_SetValue cfg2 section ''sso_region'' region
                 in (case AccountId account of
                       None \<Rightarrow> Inl NilDereference
                     | Some accountId \<Rightarrow>
                         let cfg4 = key_SetValue cfg3 section ''sso_account_id'' accountId;
                             cfg5 = key_SetValue cfg4 section ''sso_role_name'' (RoleName opts)
                         in Inr (key_SetValue cfg5 section ''region'' region))))"

fun updateAccounts ::
  "unicode_tables \<Rightarrow> Options \<Rightarrow> string \<Rightarrow> string \<Rightarrow> string \<Rightarrow> ini_File \<Rightarrow> AccountInfo list \<Rightarrow> error + ini_File"
where
  "updateAccounts U opts startURL region profilePrefix cfg [] = Inr cfg"
| "updateAccounts U opts startURL region profilePrefix cfg (account # accounts) =
     (case updateAccount U opts startURL region profilePrefix cfg account of
        Inl err \<Rightarrow> Inl err
      | Inr cfg' \<Rightarrow> updateAccounts U opts startURL region profilePrefix cfg' accounts)"

text \<open>
  The function returns its error (\<open>None\<close> is \<^verbatim>\<open>nil\<close>; a panic is reported as the error
  \<open>NilDereference\<close>) and the file at \<^verbatim>\<open>configPath\<close> as the call leaves it.
\<close>

definition updateAWSConfig ::
  "unicode_tables \<Rightarrow> Options \<Rightarrow> config_file \<Rightarrow> AccountInfo list \<Rightarrow> string \<Rightarrow> string \<Rightarrow> string
    \<Rightarrow> error option \<times> config_file"
where
  "updateAWSConfig U opts fs accounts startURL region profilePrefix =
     (case ini_Load fs of
        Inl err \<Rightarrow> (Some err, fs)
      | Inr cfg \<Rightarrow>
          (case updateAccounts U opts startURL region
                  (if profilePrefix \<noteq> [] then profilePrefix @ ''-'' else profilePrefix)
                  cfg accounts of
             Inl err \<Rightarrow> (Some err, fs)
           | Inr cfg' \<Rightarrow>
               if DryRun opts then (None, fs) else file_SaveTo cfg' fs))"

section \<open>\<^verbatim>\<open>readSSOToken\<close>\<close>

text \<open>
  The cache directory as the function observes it: the names \<^verbatim>\<open>os.ReadDir\<close> returns, in
  the order it returns them (\<open>None\<close> when it fails); the bytes \<^verbatim>\<open>os.ReadFile\<close> returns
  for a name; the token \<^verbatim>\<open>json.Unmarshal\<close> decodes from bytes (\<open>None\<close> when it returns
  an error); and the Unix time \<^verbatim>\<open>info.ModTime().Unix()\<close> that \<^verbatim>\<open>os.Stat\<close> reports for a
  name. The modification time is an \<^verbatim>\<open>int64\<close> that is only compared, never computed
  with, so it is an \<open>int\<close>. A file is named by its entry in the directory, the
  directory's path being the same for all.
\<close>

record token_cache =
  os_ReadDir :: "string list option"
  os_ReadFile :: "string \<Rightarrow> string option"
  json_Unmarshal :: "string \<Rightarrow> SSOToken option"
  os_Stat :: "string \<Rightarrow> int option"

text \<open>
  Lines 106 to 129. The state of the loop is \<^verbatim>\<open>selectedFile\<close> and \<^verbatim>\<open>latestModTime\<close>;
  \<open>None\<close> is the empty \<^verbatim>\<open>selectedFile\<close> (a joined path is never empty).
\<close>

fun scanFiles ::
  "Options \<Rightarrow> token_cache \<Rightarrow> string list \<Rightarrow> string option \<times> int \<Rightarrow> string option \<times> int"
where
  "scanFiles opts env [] st = st"
| "scanFiles opts env (file # files) (selectedFile, latestModTime) =
     (if strings_HasSuffix file ''.json'' then
        (case os_ReadFile env file of
           None \<Rightarrow> scanFiles opts env files (selectedFile, latestModTime)
         | Some data \<Rightarrow>
             (case json_Unmarshal env data of
                None \<Rightarrow> scanFiles opts env files (selectedFile, latestModTime)
              | Some token \<Rightarrow>
                  if StartDomain opts \<noteq> [] \<and> \<not> strings_Contains (StartURL token) (StartDomain opts)
                  then scanFiles opts env files (selectedFile, latestModTime)
                  else
                    (case os_Stat env file of
                       None \<Rightarrow> scanFiles opts env files (selectedFile, latestModTime)
                     | Some modTime \<Rightarrow>
                         if modTime > latestModTime
                         then scanFiles opts env files (Some file, modTime)
                         else scanFiles opts env files (selectedFile, latestModTime))))
      else scanFiles opts env files (selectedFile, latestModTime))"

definition readSSOToken :: "Options \<Rightarrow> token_cache \<Rightarrow> error + SSOToken" where
  "readSSOToken opts env =
     (case os_ReadDir env of
        None \<Rightarrow> Inl ReadDirError
      | Some files \<Rightarrow>
          (case fst (scanFiles opts env files (None, 0)) of
             None \<Rightarrow> Inl TokenNotFound
           | Some selectedFile \<Rightarrow>
               (case os_ReadFile env selectedFile of
                  None \<Rightarrow> Inl ReadFileError
                | Some data \<Rightarrow>
                    (case json_Unmarshal env data of
                       None \<Rightarrow> Inl UnmarshalError
                     | Some token \<Rightarrow> Inr token))))"

section \<open>\<^verbatim>\<open>listSSOAccounts\<close> and \<^verbatim>\<open>validateRoleForAccount\<close>\<close>

text \<open>
  The remote service is a black box: a call is a function of the access token, the
  account (for roles) and the continuation token, and returns an error or a page. The
  value \<open>NilDereference\<close> stands for a panic of the program and is not an error that a
  call returns.
\<close>

record ListAccountsOutput =
  AccountList :: "AccountInfo list"
  NextToken :: "string option"

record ListAccountRolesOutput =
  RoleList :: "RoleInfo list"
  Roles_NextToken :: "string option"   \<comment> \<open>field \<^verbatim>\<open>NextToken\<close> of \<^verbatim>\<open>ListAccountRolesOutput\<close>\<close>

record sso_Client =
  ListAccounts :: "string \<Rightarrow> string option \<Rightarrow> error + ListAccountsOutput"
  ListAccountRoles :: "string \<Rightarrow> string \<Rightarrow> string option \<Rightarrow> error + ListAccountRolesOutput"

text \<open>Lines 201 to 205: the loop over one page of roles.\<close>

fun roleInList :: "Options \<Rightarrow> RoleInfo list \<Rightarrow> error + bool" where
  "roleInList opts [] = Inr False"
| "roleInList opts (role # roles) =
     (case RoleInfo_RoleName role of
        None \<Rightarrow> Inl NilDereference
      | Some name \<Rightarrow> if name = RoleName opts then Inr True else roleInList opts roles)"

text \<open>
  Lines 191 to 211. The loop ends only when the service returns an error, a page with
  the role or a page with no continuation token: a run that never ends is \<open>None\<close>.
\<close>

partial_function (option) validateRolePages ::
  "sso_Client \<Rightarrow> Options \<Rightarrow> string \<Rightarrow> string \<Rightarrow> string option \<Rightarrow> (error + bool) option"
where
  "validateRolePages client opts accessToken accountID nextToken =
     (case ListAccountRoles client accessToken accountID nextToken of
        Inl err \<Rightarrow> Some (Inl err)
      | Inr resp \<Rightarrow>
          (case roleInList opts (RoleList resp) of
             Inl err \<Rightarrow> Some (Inl err)
           | Inr found \<Rightarrow>
               if found then Some (Inr True)
               else
                 (case Roles_NextToken resp of
                    None \<Rightarrow> Some (Inr False)
                  | Some t \<Rightarrow> validateRolePages client opts accessToken accountID (Some t))))"

definition validateRoleForAccount ::
  "sso_Client \<Rightarrow> Options \<Rightarrow> string \<Rightarrow> string \<Rightarrow> (error + bool) option"
where
  "validateRoleForAccount client opts accessToken accountID =
     validateRolePages client opts accessToken accountID None"

text \<open>
  Lines 165 to 176: whether the account is appended. An error that
  \<^verbatim>\<open>validateRoleForAccount\<close> returns skips the account; a panic inside it is not a
  returned error and ends the program.
\<close>

definition checkAccount ::
  "sso_Client \<Rightarrow> Options \<Rightarrow> string \<Rightarrow> AccountInfo \<Rightarrow> (error + bool) option"
where
  "checkAccount client opts accessToken account =
     (if RoleName opts \<noteq> [] then
        (case AccountId account of
           None \<Rightarrow> Some (Inl NilDereference)
         | Some accountId \<Rightarrow>
             (case validateRoleForAccount client opts accessToken accountId of
                None \<Rightarrow> None
              | Some (Inl err) \<Rightarrow>
                  if err = NilDereference then Some (Inl NilDereference) else Some (Inr False)
              | Some (Inr valid) \<Rightarrow>
                  if \<not> valid then
                    (case AccountName account of
                       None \<Rightarrow> Some (Inl NilDereference)
                     | Some name \<Rightarrow> Some (Inr False))
                  else Some (Inr True)))
      else Some (Inr True))"

text \<open>Lines 164 to 178: the loop over one page of accounts.\<close>

fun appendAccounts ::
  "sso_Client \<Rightarrow> Options \<Rightarrow> string \<Rightarrow> AccountInfo list \<Rightarrow> AccountInfo list
    \<Rightarrow> (error + AccountInfo list) option"
where
  "appendAccounts client opts accessToken [] accounts = Some (Inr accounts)"
| "appendAccounts client opts accessToken (account # rest) accounts =
     (case checkAccount client opts accessToken account of
        None \<Rightarrow> None
      | Some (Inl err) \<Rightarrow> Some (Inl err)
      | Some (Inr keep) \<Rightarrow>
          appendAccounts client opts accessToken rest
            (if keep then accounts @ [account] else accounts))"

text \<open>Lines 155 to 184.\<close>

partial_function (option) listAccountPages ::
  "sso_Client \<Rightarrow> Options \<Rightarrow> string \<Rightarrow> AccountInfo list \<Rightarrow> string option
    \<Rightarrow> (error + AccountInfo list) option"
where
  "listAccountPages client opts accessToken accounts nextToken =
     (case ListAccounts client accessToken nextToken of
        Inl err \<Rightarrow> Some (Inl err)
      | Inr resp \<Rightarrow>
          (case appendAccounts client opts accessToken (AccountList resp) accounts of
             None \<Rightarrow> None
           | Some (Inl err) \<Rightarrow> Some (Inl err)
           | Some (Inr accounts') \<Rightarrow>
               (case NextToken resp of
                  None \<Rightarrow> Some (Inr accounts')
                | Some t \<Rightarrow> listAccountPages client opts accessToken accounts' (Some t))))"

definition listSSOAccounts ::
  "sso_Client \<Rightarrow> Options \<Rightarrow> string \<Rightarrow> (error + AccountInfo list) option"
where
  "listSSOAccounts client opts accessToken =
     listAccountPages client opts accessToken [] None"

section \<open>Vocabulary of the properties\<close>

text \<open>
  \<open>pages_of call next tok ps\<close>: the calls that start with the continuation token \<open>tok\<close>
  and pass each page's continuation token to the next call return the pages \<open>ps\<close>,
  all without error, and the last page is the first that carries no continuation token.
\<close>

fun pages_of :: "('t option \<Rightarrow> error + 'p) \<Rightarrow> ('p \<Rightarrow> 't option) \<Rightarrow> 't option \<Rightarrow> 'p list \<Rightarrow> bool" where
  "pages_of call next tok [] = False"
| "pages_of call next tok (p # ps) =
     (call tok = Inr p \<and>
      (case next p of None \<Rightarrow> ps = [] | Some t \<Rightarrow> pages_of call next (Some t) ps))"

text \<open>The runes that \<open>keepRune\<close> keeps: \<^verbatim>\<open>[a-z0-9-]\<close>.\<close>

definition allowedRune :: "rune \<Rightarrow> bool" where
  "allowedRune r = ((97 \<le> r \<and> r \<le> 122) \<or> (48 \<le> r \<and> r \<le> 57) \<or> r = 45)"

text \<open>
  The test of lines 241 to 247: the section has the four keys \<^verbatim>\<open>sso_start_url\<close>,
  \<^verbatim>\<open>sso_account_id\<close>, \<^verbatim>\<open>sso_role_name\<close> and \<^verbatim>\<open>region\<close>, and their values are the run's
  start URL, the account's id, the run's role name and the run's region.
\<close>

definition identifies :: "Options \<Rightarrow> string \<Rightarrow> string \<Rightarrow> AccountInfo \<Rightarrow> ini_Section \<Rightarrow> bool" where
  "identifies opts startURL region account s =
     (section_HasKey s ''sso_start_url'' \<and> section_HasKey s ''sso_account_id'' \<and>
      section_HasKey s ''sso_role_name'' \<and> section_HasKey s ''region'' \<and>
      key_String s ''sso_start_url'' = startURL \<and>
      AccountId account = Some (key_String s ''sso_account_id'') \<and>
      key_String s ''sso_role_name'' = RoleName opts \<and>
      key_String s ''region'' = region)"

text \<open>
  The files that the \<^verbatim>\<open>ini\<close> package loads: section names are unique and not empty.
\<close>

definition wf_File :: "ini_File \<Rightarrow> bool" where
  "wf_File cfg = (distinct (map fst cfg) \<and> [] \<notin> set (map fst cfg))"

text \<open>
  For the token cache: the token a file decodes to; whether a file qualifies (its name
  ends in \<^verbatim>\<open>.json\<close>, it can be read, it decodes, and its start URL contains the start
  domain when one is given); and the modification time of a qualifying file whose
  \<^verbatim>\<open>os.Stat\<close> succeeds.
\<close>

definition tokenOf :: "token_cache \<Rightarrow> string \<Rightarrow> SSOToken option" where
  "tokenOf env file =
     (case os_ReadFile env file of None \<Rightarrow> None | Some data \<Rightarrow> json_Unmarshal env data)"

definition candidate :: "Options \<Rightarrow> token_cache \<Rightarrow> string \<Rightarrow> bool" where
  "candidate opts env file =
     (strings_HasSuffix file ''.json'' \<and>
      (case tokenOf env file of
         None \<Rightarrow> False
       | Some token \<Rightarrow>
           StartDomain opts = [] \<or> strings_Contains (StartURL token) (StartDomain opts)))"

definition modTimeOf :: "Options \<Rightarrow> token_cache \<Rightarrow> string \<Rightarrow> int option" where
  "modTimeOf opts env file = (if candidate opts env file then os_Stat env file else None)"

text \<open>
  The role list contains a role whose name is the role-name filter, compared as Go
  compares strings: byte for byte.
\<close>

definition roleListed :: "Options \<Rightarrow> RoleInfo list \<Rightarrow> bool" where
  "roleListed opts roles = list_ex (\<lambda>role. RoleInfo_RoleName role = Some (RoleName opts)) roles"

text \<open>
  The section \<open>sec\<close> of the file has the keys \<^verbatim>\<open>sso_region\<close> and \<^verbatim>\<open>region\<close>, both with
  the value \<open>region\<close>.
\<close>

definition regions_written :: "string \<Rightarrow> ini_File \<Rightarrow> string \<Rightarrow> bool" where
  "regions_written region cfg sec =
     (case map_of cfg sec of
        None \<Rightarrow> False
      | Some keys \<Rightarrow> map_of keys ''sso_region'' = Some region \<and> map_of keys ''region'' = Some region)"

section \<open>The runs of the repository's tests\<close>

text \<open>
  The values of \<^verbatim>\<open>TestUpdateAWSConfig_AddProfile\<close> and
  \<^verbatim>\<open>TestUpdateAWSConfig_RemoveProfile\<close>. The Unicode tables play no role for ASCII
  names; \<open>mock_tables\<close> lowers nothing and knows no further space.
\<close>

definition mock_tables :: unicode_tables where
  "mock_tables = \<lparr>To_LowerCase = (\<lambda>r. r), White_Space = (\<lambda>r. False)\<rparr>"

definition mockOpts :: Options where
  "mockOpts =
     \<lparr>DryRun = False, ProfilePrefix = ''mock'', Region = [],
      RoleName = ''AdministratorAccess'', StartDomain = ''mock-sso'', Remove = False\<rparr>"

definition mockAccount :: AccountInfo where
  "mockAccount =
     \<lparr>AccountId = Some ''123456789012'', AccountName = Some (ascii_runes ''MockAccount''),
      EmailAddress = None\<rparr>"

definition mockStartURL :: string where
  "mockStartURL = ''https://mock-sso.awsapps.com/start''"

definition mockRegion :: string where
  "mockRegion = ''us-east-1''"

definition mockSection :: ini_Section where
  "mockSection =
     (''mock-mockaccount'',
      [(''sso_start_url'', ''https://mock-sso.awsapps.com/start''),
       (''sso_region'', ''us-east-1''),
       (''sso_account_id'', ''123456789012''),
       (''sso_role_name'', ''AdministratorAccess''),
       (''region'', ''us-east-1'')])"

definition emptyConfig :: config_file where
  "emptyConfig = \<lparr>content = Some ini_Empty, writable = True\<rparr>"

definition mockConfig :: config_file where
  "mockConfig = \<lparr>content = Some (ini_Empty @ [mockSection]), writable = True\<rparr>"

text \<open>
  Two more sections for the removal runs: one of another role, and one that has the four
  identifying keys and no \<^verbatim>\<open>sso_region\<close>.
\<close>

definition readOnlySection :: ini_Section where
  "readOnlySection =
     (''mock-readonly'',
      [(''sso_start_url'', ''https://mock-sso.awsapps.com/start''),
       (''sso_region'', ''us-east-1''),
       (''sso_account_id'', ''123456789012''),
       (''sso_role_name'', ''ReadOnlyAccess''),
       (''region'', ''us-east-1'')])"

definition fourKeySection :: ini_Section where
  "fourKeySection =
     (''legacy'',
      [(''sso_start_url'', ''https://mock-sso.awsapps.com/start''),
       (''sso_account_id'', ''123456789012''),
       (''sso_role_name'', ''AdministratorAccess''),
       (''region'', ''us-east-1'')])"

text \<open>
  A token cache with two qualifying files of the same modification time and a third,
  newer file that is not valid JSON.
\<close>

definition tokenA :: SSOToken where
  "tokenA = \<lparr>AccessToken = ''secret-a'', TokenRegion = ''us-east-1'',
             StartURL = ''https://mock-sso.awsapps.com/start''\<rparr>"

definition tokenB :: SSOToken where
  "tokenB = \<lparr>AccessToken = ''secret-b'', TokenRegion = ''eu-west-1'',
             StartURL = ''https://mock-sso.awsapps.com/start''\<rparr>"

definition tieCache :: token_cache where
  "tieCache =
     \<lparr>os_ReadDir = Some [''a.json'', ''b.json'', ''c.json''],
      os_ReadFile = (\<lambda>file. if file = ''a.json'' then Some ''A''
                            else if file = ''b.json'' then Some ''B''
                            else if file = ''c.json'' then Some ''{'' else None),
      json_Unmarshal = (\<lambda>data. if data = ''A'' then Some tokenA
                               else if data = ''B'' then Some tokenB else None),
      os_Stat = (\<lambda>file. if file = ''c.json'' then Some 200 else Some 100)\<rparr>"

text \<open>
  A remote service with two pages of one account each. The first account has the role
  "AdministratorAccess" on the second page of its roles; the second account has a role of
  the same letters in lower case only.
\<close>

definition anotherAccount :: AccountInfo where
  "anotherAccount =
     \<lparr>AccountId = Some ''123456789013'', AccountName = Some (ascii_runes ''AnotherMockAccount''),
      EmailAddress = None\<rparr>"

definition mockClient :: sso_Client where
  "mockClient =
     \<lparr>ListAccounts = (\<lambda>accessToken nextToken.
        if nextToken = None
        then Inr \<lparr>AccountList = [mockAccount], NextToken = Some ''page-2''\<rparr>
        else if nextToken = Some ''page-2''
        then Inr \<lparr>AccountList = [anotherAccount], NextToken = None\<rparr>
        else Inl TransportError),
      ListAccountRoles = (\<lambda>accessToken accountId nextToken.
        if accountId = ''123456789012''
        then (if nextToken = None
              then Inr \<lparr>RoleList = [\<lparr>RoleInfo_RoleName = Some ''ReadOnlyAccess''\<rparr>],
                        Roles_NextToken = Some ''roles-2''\<rparr>
              else Inr \<lparr>RoleList = [\<lparr>RoleInfo_RoleName = Some ''AdministratorAccess''\<rparr>],
                        Roles_NextToken = None\<rparr>)
        else Inr \<lparr>RoleList = [\<lparr>RoleInfo_RoleName = Some ''administratoraccess''\<rparr>],
                  Roles_NextToken = None\<rparr>)\<rparr>"

definition mockRolePages :: "string \<Rightarrow> ListAccountRolesOutput list" where
  "mockRolePages accountId =
     (if accountId = ''123456789012''
      then [\<lparr>RoleList = [\<lparr>RoleInfo_RoleName = Some ''ReadOnlyAccess''\<rparr>],
              Roles_NextToken = Some ''roles-2''\<rparr>,
            \<lparr>RoleList = [\<lparr>RoleInfo_RoleName = Some ''AdministratorAccess''\<rparr>],
              Roles_NextToken = None\<rparr>]
      else [\<lparr>RoleList = [\<lparr>RoleInfo_RoleName = Some ''administratoraccess''\<rparr>],
              Roles_NextToken = None\<rparr>])"

definition mockPages :: "ListAccountsOutput list" where
  "mockPages =
     [\<lparr>AccountList = [mockAccount], NextToken = Some ''page-2''\<rparr>,
      \<lparr>AccountList = [anotherAccount], NextToken = None\<rparr>]"

section \<open>Profile-name derivation\<close>

lemma strings_Map_keepRune: "strings_Map keepRune s = filter allowedRune s"
  by (induction s) (auto simp: strings_Map_def keepRune_def allowedRune_def)

lemma allowedRune_accountNameOf: "r \<in> set (accountNameOf U name) \<Longrightarrow> allowedRune r"
  by (simp add: accountNameOf_def strings_Map_keepRune)

lemma allowedRune_not_space: "allowedRune r \<Longrightarrow> \<not> unicode_IsSpace U r"
  by (auto simp: allowedRune_def unicode_IsSpace_def)

lemma allowedRune_ToLower: "allowedRune r \<Longrightarrow> unicode_ToLower U r = r"
  by (auto simp: allowedRune_def unicode_ToLower_def)

lemma dropWhile_none: "\<forall>x\<in>set xs. \<not> P x \<Longrightarrow> dropWhile P xs = xs"
  by (cases xs) auto

lemma strings_TrimSpace_allowed:
  assumes "\<forall>r\<in>set s. allowedRune r"
  shows "strings_TrimSpace U s = s"
proof -
  have ns: "\<forall>r\<in>set s. \<not> unicode_IsSpace U r"
    using assms allowedRune_not_space by blast
  then have "dropWhile (unicode_IsSpace U) s = s"
    by (rule dropWhile_none)
  moreover have "dropWhile (unicode_IsSpace U) (rev s) = rev s"
    using ns by (intro dropWhile_none) simp
  ultimately show ?thesis
    by (simp add: strings_TrimSpace_def)
qed

lemma accountNameOf_allowed:
  assumes "\<forall>r\<in>set s. allowedRune r"
  shows "accountNameOf U s = s"
proof -
  have "strings_ToLower U s = s"
    unfolding strings_ToLower_def using assms allowedRune_ToLower by (intro map_idI) blast
  moreover have "strings_ReplaceAll s 32 45 = s"
    unfolding strings_ReplaceAll_def using assms by (intro map_idI) (auto simp: allowedRune_def)
  moreover have "filter allowedRune s = s"
    using assms by simp
  ultimately show ?thesis
    by (simp add: accountNameOf_def strings_Map_keepRune strings_TrimSpace_allowed [OF assms])
qed

lemma mock_accountName:
  "ascii_string (accountNameOf U (ascii_runes ''MockAccount'')) = ''mockaccount''"
  by (simp add: accountNameOf_def ascii_runes_def ascii_string_def strings_Map_def
      strings_ReplaceAll_def strings_ToLower_def strings_TrimSpace_def unicode_IsSpace_def
      unicode_ToLower_def keepRune_def char_of_def)

text \<open>
  C9. The derivation of the account part of a profile name (trim, lowercase, spaces to
  hyphens, drop every rune outside \<^verbatim>\<open>[a-z0-9-]\<close>) is idempotent: applied to a name it
  has produced, it returns that name. This holds for every input and whatever the
  Unicode tables say.
\<close>

theorem accountNameOf_idempotent:
  "accountNameOf U (accountNameOf U name) = accountNameOf U name"
  by (rule accountNameOf_allowed) (simp add: allowedRune_accountNameOf)

theorem accountNameOf_idempotent_witness:
  "accountNameOf mock_tables (accountNameOf mock_tables (ascii_runes '' Mock Account! ''))
     = ascii_runes ''mock-account''"
  using accountNameOf_idempotent [of mock_tables "ascii_runes '' Mock Account! ''"]
  by (simp add: accountNameOf_def ascii_runes_def strings_Map_def
      strings_ReplaceAll_def strings_ToLower_def strings_TrimSpace_def unicode_IsSpace_def
      unicode_ToLower_def keepRune_def mock_tables_def)

section \<open>Reconciliation: apply mode on the empty file\<close>

text \<open>
  C6. On an empty configuration file (the file \<open>ini_Empty\<close>, whose only section is the
  nameless, keyless \<^verbatim>\<open>DEFAULT\<close> that the package keeps for every file), with the one
  account "MockAccount" of id "123456789012", the role name "AdministratorAccess", the
  region "us-east-1", the start URL "https://mock-sso.awsapps.com/start" and the prefix
  "mock", apply mode returns no error and saves a file with exactly one section more,
  named "mock-mockaccount", whose keys are the five keys with those values.
\<close>

theorem apply_mock_account:
  "updateAWSConfig U mockOpts emptyConfig [mockAccount] mockStartURL mockRegion ''mock''
     = (None,
        \<lparr>content = Some (ini_Empty @
           [(''mock-mockaccount'',
             [(''sso_start_url'', ''https://mock-sso.awsapps.com/start''),
              (''sso_region'', ''us-east-1''),
              (''sso_account_id'', ''123456789012''),
              (''sso_role_name'', ''AdministratorAccess''),
              (''region'', ''us-east-1'')])]),
         writable = True\<rparr>)"
  by (simp add: updateAWSConfig_def ini_Load_def updateAccount_def mockOpts_def mockAccount_def
      mock_accountName getOrNewSection_def file_GetSection_def file_NewSection_def
      section_ref_def DefaultSection_def ini_Empty_def key_SetValue_def file_SaveTo_def
      emptyConfig_def mockStartURL_def mockRegion_def)

theorem apply_mock_account_witness:
  "map fst (the (content (snd
      (updateAWSConfig mock_tables mockOpts emptyConfig [mockAccount] mockStartURL mockRegion
         ''mock''))))
     = [''DEFAULT'', ''mock-mockaccount'']"
  using apply_mock_account [of mock_tables]
  by (simp add: ini_Empty_def DefaultSection_def)

section \<open>Reconciliation: dry run\<close>

lemma removeSections_DryRun:
  "DryRun opts \<Longrightarrow> removeSections opts startURL region account snap cfg = Inr cfg' \<Longrightarrow> cfg' = cfg"
  by (induction snap arbitrary: cfg) (auto split: if_splits option.splits)

lemma updateAccount_DryRun:
  "DryRun opts \<Longrightarrow> updateAccount U opts startURL region pfx cfg account = Inr cfg' \<Longrightarrow> cfg' = cfg"
  by (auto simp: updateAccount_def Let_def split: option.splits if_splits
      dest: removeSections_DryRun)

lemma updateAccounts_DryRun:
  "DryRun opts \<Longrightarrow> updateAccounts U opts startURL region pfx cfg accounts = Inr cfg' \<Longrightarrow> cfg' = cfg"
proof (induction accounts arbitrary: cfg)
  case Nil
  then show ?case by simp
next
  case (Cons a accounts)
  then show ?case
    by (auto split: sum.splits dest: updateAccount_DryRun)
qed

lemma removeSections_error:
  "removeSections opts startURL region account snap cfg = Inl e \<Longrightarrow> e = NilDereference"
  by (induction snap arbitrary: cfg) (auto split: if_splits option.splits)

lemma updateAccount_DryRun_error:
  "DryRun opts \<Longrightarrow> updateAccount U opts startURL region pfx cfg account = Inl e \<Longrightarrow>
     e = NilDereference"
  by (auto simp: updateAccount_def Let_def split: option.splits if_splits
      dest: removeSections_error)

lemma updateAccounts_DryRun_cases:
  assumes "DryRun opts"
  shows "updateAccounts U opts startURL region pfx cfg accounts = Inr cfg \<or>
         updateAccounts U opts startURL region pfx cfg accounts = Inl NilDereference"
proof (induction accounts)
  case Nil
  then show ?case by simp
next
  case (Cons a accounts)
  show ?case
  proof (cases "updateAccount U opts startURL region pfx cfg a")
    case (Inl e)
    with assms have "e = NilDereference"
      by (auto dest: updateAccount_DryRun_error)
    with Inl show ?thesis by simp
  next
    case (Inr c)
    with assms have "c = cfg"
      by (auto dest: updateAccount_DryRun)
    with Inr Cons show ?thesis by simp
  qed
qed

text \<open>
  C3. With dry-run enabled, \<^verbatim>\<open>updateAWSConfig\<close> leaves the file at the configuration
  path as it found it: for every file (loadable or not, writable or not), every list of
  accounts, every start URL, region and prefix, and in apply mode as in removal mode.
  Whatever the call returns (no error, a load error, a panic on a nil pointer), nothing
  is saved. The loaded file is not changed in memory either: the loop over the accounts
  ends with the file it began with, or in a panic.
\<close>

theorem dry_run_keeps_file:
  assumes "DryRun opts"
  shows "snd (updateAWSConfig U opts fs accounts startURL region profilePrefix) = fs \<and>
         (updateAccounts U opts startURL region pfx cfg accounts = Inr cfg \<or>
          updateAccounts U opts startURL region pfx cfg accounts = Inl NilDereference)"
  using assms updateAccounts_DryRun_cases [OF assms]
  by (simp add: updateAWSConfig_def split: sum.splits)

theorem dry_run_keeps_file_witness:
  "DryRun (mockOpts\<lparr>DryRun := True, Remove := True\<rparr>) \<and>
   snd (updateAWSConfig mock_tables (mockOpts\<lparr>DryRun := True, Remove := True\<rparr>) mockConfig
          [mockAccount] mockStartURL mockRegion ''mock'') = mockConfig \<and>
   DryRun (mockOpts\<lparr>DryRun := True\<rparr>) \<and>
   snd (updateAWSConfig mock_tables (mockOpts\<lparr>DryRun := True\<rparr>) emptyConfig
          [mockAccount] mockStartURL mockRegion ''mock'') = emptyConfig"
  using dry_run_keeps_file [of "mockOpts\<lparr>DryRun := True, Remove := True\<rparr>" mock_tables mockConfig
      "[mockAccount]" mockStartURL mockRegion "''mock''"]
    dry_run_keeps_file [of "mockOpts\<lparr>DryRun := True\<rparr>" mock_tables emptyConfig
      "[mockAccount]" mockStartURL mockRegion "''mock''"]
  by simp

section \<open>Reconciliation: removal mode\<close>

lemma delete_filter: "AList.delete k al = filter (\<lambda>s. fst s \<noteq> k) al"
  by (induction al) auto

lemma removeSections_result:
  assumes "\<not> DryRun opts"
    and "removeSections opts startURL region account snap cfg = Inr cfg'"
  shows "cfg' = filter (\<lambda>s. fst s \<notin> section_ref ` fst ` {m \<in> set snap. identifies opts startURL region account m}) cfg"
  using assms
proof (induction snap arbitrary: cfg)
  case Nil
  then show ?case by simp
next
  case (Cons m snap)
  show ?case
  proof (cases "identifies opts startURL region account m")
    case True
    then have "removeSections opts startURL region account snap
                 (file_DeleteSection cfg (section_Name m)) = Inr cfg'"
      using Cons.prems by (auto simp: identifies_def)
    then have "cfg' = filter (\<lambda>s. fst s \<notin> section_ref ` fst ` {m \<in> set snap. identifies opts startURL region account m})
        (file_DeleteSection cfg (section_Name m))"
      using Cons.IH Cons.prems(1) by blast
    then show ?thesis
      using True by (auto simp: file_DeleteSection_def delete_filter section_Name_def intro: filter_cong)
  next
    case False
    then have "removeSections opts startURL region account snap cfg = Inr cfg'"
      using Cons.prems by (auto simp: identifies_def split: if_splits option.splits)
    then have "cfg' = filter (\<lambda>s. fst s \<notin> section_ref ` fst ` {m \<in> set snap. identifies opts startURL region account m}) cfg"
      using Cons.IH Cons.prems(1) by blast
    then show ?thesis
      using False by (auto intro: filter_cong)
  qed
qed

lemma removeSections_returns:
  "AccountId account \<noteq> None \<Longrightarrow> \<exists>cfg'. removeSections opts startURL region account snap cfg = Inr cfg'"
  by (induction snap arbitrary: cfg) auto

lemma wf_File_filter: "wf_File cfg \<Longrightarrow> wf_File (filter P cfg)"
  by (auto simp: wf_File_def distinct_map_filter)

lemma wf_File_name_iff:
  assumes "wf_File cfg" and "s \<in> set cfg"
  shows "fst s \<in> section_ref ` fst ` {m \<in> set cfg. Q m} \<longleftrightarrow> Q s"
proof
  assume "fst s \<in> section_ref ` fst ` {m \<in> set cfg. Q m}"
  then obtain m where m: "m \<in> set cfg" "Q m" "fst s = section_ref (fst m)"
    by auto
  from assms(1) m(1) have "fst m \<noteq> []"
    by (force simp: wf_File_def)
  with m(3) have "fst s = fst m"
    by (simp add: section_ref_def)
  moreover from assms(1) have "inj_on fst (set cfg)"
    by (simp add: wf_File_def distinct_map)
  ultimately have "s = m"
    using assms(2) m(1) by (auto dest: inj_onD)
  with m(2) show "Q s" by simp
next
  assume "Q s"
  moreover from assms have "fst s \<noteq> []"
    by (force simp: wf_File_def)
  then have "section_ref (fst s) = fst s"
    by (simp add: section_ref_def)
  ultimately show "fst s \<in> section_ref ` fst ` {m \<in> set cfg. Q m}"
    using assms(2) by force
qed

lemma updateAccount_remove:
  assumes "Remove opts" and "\<not> DryRun opts" and "wf_File cfg"
    and "updateAccount U opts startURL region pfx cfg account = Inr cfg'"
  shows "cfg' = filter (\<lambda>s. \<not> identifies opts startURL region account s) cfg"
proof -
  from assms(1,4) have "removeSections opts startURL region account cfg cfg = Inr cfg'"
    by (auto simp: updateAccount_def file_Sections_def split: option.splits)
  then have "cfg' = filter (\<lambda>s. fst s \<notin> section_ref ` fst ` {m \<in> set cfg. identifies opts startURL region account m}) cfg"
    using assms(2) by (rule removeSections_result [rotated])
  also have "\<dots> = filter (\<lambda>s. \<not> identifies opts startURL region account s) cfg"
    using wf_File_name_iff [OF assms(3)] by (intro filter_cong) auto
  finally show ?thesis .
qed

lemma updateAccounts_remove:
  assumes "Remove opts" and "\<not> DryRun opts"
  shows "wf_File cfg \<Longrightarrow> updateAccounts U opts startURL region pfx cfg accounts = Inr cfg' \<Longrightarrow>
    cfg' = filter (\<lambda>s. \<not> list_ex (\<lambda>a. identifies opts startURL region a s) accounts) cfg"
proof (induction accounts arbitrary: cfg)
  case Nil
  then show ?case by simp
next
  case (Cons a accounts)
  from Cons.prems(2) obtain cfg1 where
    one: "updateAccount U opts startURL region pfx cfg a = Inr cfg1" and
    rest: "updateAccounts U opts startURL region pfx cfg1 accounts = Inr cfg'"
    by (auto split: sum.splits)
  have cfg1: "cfg1 = filter (\<lambda>s. \<not> identifies opts startURL region a s) cfg"
    using assms Cons.prems(1) one by (rule updateAccount_remove)
  then have "wf_File cfg1"
    using Cons.prems(1) by (simp add: wf_File_filter)
  then have "cfg' = filter (\<lambda>s. \<not> list_ex (\<lambda>a. identifies opts startURL region a s) accounts) cfg1"
    using rest by (rule Cons.IH)
  with cfg1 show ?case
    by (auto intro: filter_cong)
qed

lemma updateAccounts_remove_returns:
  assumes "Remove opts"
    and "\<forall>a\<in>set accounts. AccountName a \<noteq> None \<and> AccountId a \<noteq> None"
  shows "\<exists>cfg'. updateAccounts U opts startURL region pfx cfg accounts = Inr cfg'"
  using assms(2)
proof (induction accounts arbitrary: cfg)
  case Nil
  then show ?case by simp
next
  case (Cons a accounts)
  then obtain n where n: "AccountName a = Some n" and i: "AccountId a \<noteq> None"
    by auto
  from removeSections_returns [OF i] obtain cfg1 where
    "removeSections opts startURL region a (file_Sections cfg) cfg = Inr cfg1"
    by blast
  then have "updateAccount U opts startURL region pfx cfg a = Inr cfg1"
    using assms(1) n by (simp add: updateAccount_def)
  moreover from Cons obtain cfg' where
    "updateAccounts U opts startURL region pfx cfg1 accounts = Inr cfg'"
    by fastforce
  ultimately show ?case by simp
qed

lemmas run_defs = updateAWSConfig_def ini_Load_def updateAccount_def file_Sections_def
  section_HasKey_def key_String_def file_DeleteSection_def section_Name_def section_ref_def
  file_SaveTo_def mockOpts_def mockAccount_def mockStartURL_def mockRegion_def mockSection_def
  mockConfig_def emptyConfig_def ini_Empty_def DefaultSection_def mock_tables_def

lemma updateAWSConfig_remove_cases:
  assumes "content fs = Some cfg" and "wf_File cfg" and "Remove opts"
  shows "snd (updateAWSConfig U opts fs accounts startURL region profilePrefix) = fs \<or>
         snd (updateAWSConfig U opts fs accounts startURL region profilePrefix) =
           fs\<lparr>content := Some (filter (\<lambda>s. \<not> list_ex (\<lambda>a. identifies opts startURL region a s) accounts) cfg)\<rparr>"
proof (cases "updateAccounts U opts startURL region
        (if profilePrefix \<noteq> [] then profilePrefix @ ''-'' else profilePrefix) cfg accounts")
  case (Inl e)
  then show ?thesis
    using assms(1) by (simp add: updateAWSConfig_def ini_Load_def)
next
  case (Inr c)
  show ?thesis
  proof (cases "DryRun opts \<or> \<not> writable fs")
    case True
    then show ?thesis
      using assms(1) Inr by (auto simp: updateAWSConfig_def ini_Load_def file_SaveTo_def)
  next
    case False
    then have "c = filter (\<lambda>s. \<not> list_ex (\<lambda>a. identifies opts startURL region a s) accounts) cfg"
      using updateAccounts_remove [OF assms(3) _ assms(2) Inr] by simp
    then show ?thesis
      using assms(1) Inr False by (simp add: updateAWSConfig_def ini_Load_def file_SaveTo_def)
  qed
qed

text \<open>
  C1, as the code has it. In removal mode a section leaves the file only if it has the
  four keys \<^verbatim>\<open>sso_start_url\<close>, \<^verbatim>\<open>sso_account_id\<close>, \<^verbatim>\<open>sso_role_name\<close> and \<^verbatim>\<open>region\<close>
  and their values are the run's start URL, the id of one of the run's accounts, the
  run's role name and the run's region: every section of the loaded file that is not in
  the file the call leaves behind is identified in this way by some account of the run.
  The key \<^verbatim>\<open>sso_region\<close> is not examined.
\<close>

theorem removal_only_identified:
  assumes "content fs = Some cfg" and "wf_File cfg" and "Remove opts"
    and "content (snd (updateAWSConfig U opts fs accounts startURL region profilePrefix)) = Some cfg'"
    and "s \<in> set cfg" and "s \<notin> set cfg'"
  shows "list_ex (\<lambda>a. identifies opts startURL region a s) accounts"
  using updateAWSConfig_remove_cases [OF assms(1,2,3), of U accounts startURL region profilePrefix]
    assms(1,4,5,6)
  by auto

theorem removal_only_identified_witness:
  "wf_File (ini_Empty @ [fourKeySection]) \<and>
   content (snd (updateAWSConfig mock_tables (mockOpts\<lparr>Remove := True\<rparr>)
     \<lparr>content = Some (ini_Empty @ [fourKeySection]), writable = True\<rparr>
     [mockAccount] mockStartURL mockRegion ''mock'')) = Some ini_Empty \<and>
   list_ex (\<lambda>a. identifies (mockOpts\<lparr>Remove := True\<rparr>) mockStartURL mockRegion a fourKeySection)
     [mockAccount]"
proof -
  let ?fs = "\<lparr>content = Some (ini_Empty @ [fourKeySection]), writable = True\<rparr>"
  let ?opts = "mockOpts\<lparr>Remove := True\<rparr>"
  have wf: "wf_File (ini_Empty @ [fourKeySection])"
    by (simp add: wf_File_def ini_Empty_def DefaultSection_def fourKeySection_def)
  have run: "content (snd (updateAWSConfig mock_tables ?opts ?fs [mockAccount] mockStartURL
      mockRegion ''mock'')) = Some ini_Empty"
    by (simp add: run_defs fourKeySection_def)
  have "list_ex (\<lambda>a. identifies ?opts mockStartURL mockRegion a fourKeySection) [mockAccount]"
    by (rule removal_only_identified [where fs = ?fs and U = mock_tables and cfg' = ini_Empty,
          OF _ wf _ run])
      (simp_all add: mockOpts_def fourKeySection_def ini_Empty_def DefaultSection_def)
  with wf run show ?thesis by simp
qed

text \<open>
  C1 as stated asks for all five keys. The code examines four: a section that has no
  \<^verbatim>\<open>sso_region\<close> key and whose other four keys match is deleted.
\<close>

theorem removal_five_keys_counterexample:
  "\<not> section_HasKey fourKeySection ''sso_region'' \<and>
   updateAWSConfig mock_tables (mockOpts\<lparr>Remove := True\<rparr>)
     \<lparr>content = Some (ini_Empty @ [fourKeySection]), writable = True\<rparr>
     [mockAccount] mockStartURL mockRegion ''mock''
   = (None, \<lparr>content = Some ini_Empty, writable = True\<rparr>)"
  by (simp add: run_defs fourKeySection_def)

text \<open>
  C4. In removal mode without dry-run, on a loadable and writable file and accounts whose
  name and id are not nil, the call returns no error and saves a file in which every
  section whose four identifying keys equal the run's start URL, the id of one of the
  run's accounts, the run's role name and the run's region is gone (the section is not
  in the file and no section has its name), and every section whose
  \<^verbatim>\<open>sso_role_name\<close> differs from the run's role name is still there, unchanged.
\<close>

theorem removal_deletes_identified:
  assumes "content fs = Some cfg" and "writable fs" and "wf_File cfg"
    and "Remove opts" and "\<not> DryRun opts"
    and "\<forall>a\<in>set accounts. AccountName a \<noteq> None \<and> AccountId a \<noteq> None"
  shows "\<exists>cfg'. updateAWSConfig U opts fs accounts startURL region profilePrefix
            = (None, fs\<lparr>content := Some cfg'\<rparr>) \<and>
          (\<forall>s\<in>set cfg. list_ex (\<lambda>a. identifies opts startURL region a s) accounts \<longrightarrow>
              s \<notin> set cfg' \<and> \<not> file_HasSection cfg' (section_Name s)) \<and>
          (\<forall>s\<in>set cfg. key_String s ''sso_role_name'' \<noteq> RoleName opts \<longrightarrow> s \<in> set cfg')"
proof -
  let ?pfx = "if profilePrefix \<noteq> [] then profilePrefix @ ''-'' else profilePrefix"
  let ?cfg' = "filter (\<lambda>s. \<not> list_ex (\<lambda>a. identifies opts startURL region a s) accounts) cfg"
  from updateAccounts_remove_returns [OF assms(4,6)] obtain c where
    c: "updateAccounts U opts startURL region ?pfx cfg accounts = Inr c"
    by blast
  then have "c = ?cfg'"
    using updateAccounts_remove [OF assms(4,5,3)] by blast
  with c have run: "updateAWSConfig U opts fs accounts startURL region profilePrefix
      = (None, fs\<lparr>content := Some ?cfg'\<rparr>)"
    using assms(1,2,5) by (simp add: updateAWSConfig_def ini_Load_def file_SaveTo_def)
  have gone: "s \<notin> set ?cfg' \<and> \<not> file_HasSection ?cfg' (section_Name s)"
    if s: "s \<in> set cfg" and m: "list_ex (\<lambda>a. identifies opts startURL region a s) accounts" for s
  proof -
    have "fst s \<noteq> []"
      using assms(3) s by (force simp: wf_File_def)
    moreover have "fst s \<notin> fst ` set ?cfg'"
    proof
      assume "fst s \<in> fst ` set ?cfg'"
      then obtain t where t: "t \<in> set ?cfg'" "fst t = fst s"
        by auto
      moreover have "inj_on fst (set cfg)"
        using assms(3) by (simp add: wf_File_def distinct_map)
      ultimately have "t = s"
        using s by (auto dest: inj_onD)
      with t(1) m show False by simp
    qed
    ultimately show ?thesis
      using m by (simp add: file_HasSection_def section_Name_def section_ref_def map_of_eq_None_iff)
  qed
  have kept: "s \<in> set ?cfg'"
    if "s \<in> set cfg" and "key_String s ''sso_role_name'' \<noteq> RoleName opts" for s
    using that by (auto simp: list_ex_iff identifies_def)
  from run gone kept show ?thesis
    by blast
qed

theorem removal_deletes_identified_witness:
  "updateAWSConfig mock_tables (mockOpts\<lparr>Remove := True\<rparr>)
     \<lparr>content = Some (ini_Empty @ [mockSection, readOnlySection]), writable = True\<rparr>
     [mockAccount] mockStartURL mockRegion ''mock''
   = (None, \<lparr>content = Some (ini_Empty @ [readOnlySection]), writable = True\<rparr>) \<and>
   identifies (mockOpts\<lparr>Remove := True\<rparr>) mockStartURL mockRegion mockAccount mockSection \<and>
   key_String readOnlySection ''sso_role_name'' \<noteq> RoleName (mockOpts\<lparr>Remove := True\<rparr>)"
proof -
  let ?cfg = "ini_Empty @ [mockSection, readOnlySection]"
  let ?fs = "\<lparr>content = Some ?cfg, writable = True\<rparr>"
  let ?opts = "mockOpts\<lparr>Remove := True\<rparr>"
  have wf: "wf_File ?cfg"
    by (simp add: wf_File_def ini_Empty_def DefaultSection_def mockSection_def readOnlySection_def)
  have id: "identifies ?opts mockStartURL mockRegion mockAccount mockSection"
    by (simp add: identifies_def run_defs)
  have ro: "key_String readOnlySection ''sso_role_name'' \<noteq> RoleName ?opts"
    by (simp add: key_String_def readOnlySection_def mockOpts_def)
  from removal_deletes_identified [where fs = ?fs and cfg = ?cfg and opts = ?opts
      and accounts = "[mockAccount]" and U = mock_tables and startURL = mockStartURL
      and region = mockRegion and profilePrefix = "''mock''", OF _ _ wf]
  obtain cfg' where
    "updateAWSConfig mock_tables ?opts ?fs [mockAccount] mockStartURL mockRegion ''mock''
       = (None, ?fs\<lparr>content := Some cfg'\<rparr>)"
    by (auto simp: mockOpts_def mockAccount_def)
  moreover have "updateAWSConfig mock_tables ?opts ?fs [mockAccount] mockStartURL mockRegion ''mock''
       = (None, \<lparr>content = Some (ini_Empty @ [readOnlySection]), writable = True\<rparr>)"
    by (simp add: run_defs readOnlySection_def)
  ultimately show ?thesis
    using id ro by simp
qed

section \<open>Reconciliation: apply mode\<close>

lemma key_SetValue_map_of:
  "map_of (key_SetValue cfg sec k v) =
     (map_of cfg)(sec := map_option (AList.update k v) (map_of cfg sec))"
  by (auto simp: key_SetValue_def map_of_map_entry fun_eq_iff split: option.splits)

lemma getOrNewSection_result:
  assumes "getOrNewSection cfg name = Inr (sec, cfg1)"
  shows "sec = section_ref name \<and> map_of cfg1 sec \<noteq> None \<and>
         (\<forall>t. map_of cfg t \<noteq> None \<longrightarrow> map_of cfg1 t = map_of cfg t)"
proof (cases "map_of cfg (section_ref name)")
  case None
  with assms have new: "file_NewSection cfg name = Inr (sec, cfg1)"
    by (simp add: getOrNewSection_def file_GetSection_def)
  then have "name \<noteq> []"
    by (auto simp: file_NewSection_def split: if_splits)
  moreover from this None have "name \<notin> set (map fst cfg)"
    by (simp add: section_ref_def map_of_eq_None_iff)
  ultimately have "sec = name" and "cfg1 = cfg @ [(name, [])]"
    using new by (auto simp: file_NewSection_def)
  with \<open>name \<noteq> []\<close> None show ?thesis
    by (auto simp: section_ref_def map_add_def split: option.splits)
next
  case (Some keys)
  with assms show ?thesis
    by (auto simp: getOrNewSection_def file_GetSection_def)
qed

lemma updateAccount_apply:
  assumes "\<not> Remove opts" and "\<not> DryRun opts" and "AccountName account = Some name"
    and "updateAccount U opts startURL region pfx cfg account = Inr cfg'"
  shows "regions_written region cfg' (section_ref (pfx @ ascii_string (accountNameOf U name)))"
    and "regions_written region cfg t \<Longrightarrow> regions_written region cfg' t"
proof -
  let ?name = "pfx @ ascii_string (accountNameOf U name)"
  from assms obtain sec cfg1 accountId where
    g: "getOrNewSection cfg ?name = Inr (sec, cfg1)" and
    c: "cfg' = key_SetValue (key_SetValue (key_SetValue (key_SetValue (key_SetValue cfg1 sec
          ''sso_start_url'' startURL) sec ''sso_region'' region) sec ''sso_account_id'' accountId)
          sec ''sso_role_name'' (RoleName opts)) sec ''region'' region"
    by (auto simp: updateAccount_def Let_def split: sum.splits option.splits prod.splits)
  from getOrNewSection_result [OF g] obtain keys where
    sec: "sec = section_ref ?name" and keys: "map_of cfg1 sec = Some keys" and
    old: "\<And>t. map_of cfg t \<noteq> None \<Longrightarrow> map_of cfg1 t = map_of cfg t"
    by auto
  have here: "regions_written region cfg' sec"
    using keys by (simp add: c regions_written_def key_SetValue_map_of AList.update_conv')
  then show "regions_written region cfg' (section_ref ?name)"
    by (simp add: sec)
  show "regions_written region cfg' t" if "regions_written region cfg t"
  proof (cases "t = sec")
    case True
    with here show ?thesis by simp
  next
    case False
    from that have "map_of cfg t \<noteq> None"
      by (auto simp: regions_written_def split: option.splits)
    then have "map_of cfg1 t = map_of cfg t"
      by (rule old)
    with False that show ?thesis
      by (simp add: c regions_written_def key_SetValue_map_of)
  qed
qed

lemma updateAccounts_apply_preserves:
  assumes "\<not> Remove opts" and "\<not> DryRun opts"
  shows "updateAccounts U opts startURL region pfx cfg accounts = Inr cfg' \<Longrightarrow>
     regions_written region cfg t \<Longrightarrow> regions_written region cfg' t"
proof (induction accounts arbitrary: cfg)
  case Nil
  then show ?case by simp
next
  case (Cons a accounts)
  from Cons.prems(1) obtain cfg1 where
    one: "updateAccount U opts startURL region pfx cfg a = Inr cfg1" and
    rest: "updateAccounts U opts startURL region pfx cfg1 accounts = Inr cfg'"
    by (auto split: sum.splits)
  from one assms obtain name where "AccountName a = Some name"
    by (auto simp: updateAccount_def split: option.splits)
  from updateAccount_apply(2) [OF assms this one Cons.prems(2)]
  have "regions_written region cfg1 t" .
  with rest show ?case
    by (rule Cons.IH)
qed

lemma updateAccounts_apply:
  assumes "\<not> Remove opts" and "\<not> DryRun opts"
  shows "updateAccounts U opts startURL region pfx cfg accounts = Inr cfg' \<Longrightarrow>
     a \<in> set accounts \<Longrightarrow> AccountName a = Some name \<Longrightarrow>
     regions_written region cfg' (section_ref (pfx @ ascii_string (accountNameOf U name)))"
proof (induction accounts arbitrary: cfg)
  case Nil
  then show ?case by simp
next
  case (Cons b accounts)
  from Cons.prems(1) obtain cfg1 where
    one: "updateAccount U opts startURL region pfx cfg b = Inr cfg1" and
    rest: "updateAccounts U opts startURL region pfx cfg1 accounts = Inr cfg'"
    by (auto split: sum.splits)
  show ?case
  proof (cases "a = b")
    case True
    with one Cons.prems(3) assms
    have "regions_written region cfg1 (section_ref (pfx @ ascii_string (accountNameOf U name)))"
      by (auto intro: updateAccount_apply(1))
    with rest show ?thesis
      by (rule updateAccounts_apply_preserves [OF assms])
  next
    case False
    with Cons.prems(2) have "a \<in> set accounts" by simp
    with rest Cons.prems(3) show ?thesis
      by (intro Cons.IH)
  qed
qed

text \<open>
  C10. In apply mode, when the call returns no error, the section written for each
  account of the run (the section that \<^verbatim>\<open>GetSection\<close> finds under the account's profile
  name in the saved file) has the keys \<^verbatim>\<open>sso_region\<close> and \<^verbatim>\<open>region\<close>, and both hold the
  region the call was given: the two values are equal.
\<close>

theorem apply_regions_equal:
  assumes "\<not> Remove opts" and "\<not> DryRun opts"
    and "updateAWSConfig U opts fs accounts startURL region profilePrefix = (None, fs')"
    and "a \<in> set accounts" and "AccountName a = Some name"
  shows "\<exists>cfg' sec keys.
           content fs' = Some cfg' \<and>
           file_GetSection cfg'
             ((if profilePrefix \<noteq> [] then profilePrefix @ ''-'' else profilePrefix)
                @ ascii_string (accountNameOf U name)) = Inr sec \<and>
           map_of cfg' sec = Some keys \<and>
           section_HasKey (sec, keys) ''sso_region'' \<and> section_HasKey (sec, keys) ''region'' \<and>
           key_String (sec, keys) ''sso_region'' = region \<and>
           key_String (sec, keys) ''region'' = region"
proof -
  let ?pfx = "if profilePrefix \<noteq> [] then profilePrefix @ ''-'' else profilePrefix"
  let ?name = "?pfx @ ascii_string (accountNameOf U name)"
  from assms(2,3) obtain cfg cfg' where
    "updateAccounts U opts startURL region ?pfx cfg accounts = Inr cfg'" and
    saved: "content fs' = Some cfg'"
    by (auto simp: updateAWSConfig_def ini_Load_def file_SaveTo_def
        split: sum.splits option.splits if_splits)
  from updateAccounts_apply [OF assms(1,2) this(1) assms(4,5)]
  have "regions_written region cfg' (section_ref ?name)" .
  then obtain keys where "map_of cfg' (section_ref ?name) = Some keys"
    and "map_of keys ''sso_region'' = Some region" and "map_of keys ''region'' = Some region"
    by (auto simp: regions_written_def split: option.splits)
  with saved show ?thesis
    by (auto simp: file_GetSection_def section_HasKey_def key_String_def)
qed

theorem apply_regions_equal_witness:
  "\<exists>cfg' sec keys.
     content (snd (updateAWSConfig mock_tables mockOpts emptyConfig [mockAccount] mockStartURL
       mockRegion ''mock'')) = Some cfg' \<and>
     file_GetSection cfg' ''mock-mockaccount'' = Inr sec \<and>
     map_of cfg' sec = Some keys \<and>
     key_String (sec, keys) ''sso_region'' = ''us-east-1'' \<and>
     key_String (sec, keys) ''region'' = ''us-east-1''"
proof -
  obtain fs' where run:
    "updateAWSConfig mock_tables mockOpts emptyConfig [mockAccount] mockStartURL mockRegion ''mock''
       = (None, fs')"
    by (simp add: updateAWSConfig_def ini_Load_def updateAccount_def mockOpts_def mockAccount_def
        mock_accountName getOrNewSection_def file_GetSection_def file_NewSection_def
        section_ref_def DefaultSection_def ini_Empty_def key_SetValue_def file_SaveTo_def
        emptyConfig_def)
  have name: "AccountName mockAccount = Some (ascii_runes ''MockAccount'')"
    by (simp add: mockAccount_def)
  from apply_regions_equal [OF _ _ run _ name]
  have "\<exists>cfg' sec keys.
     content fs' = Some cfg' \<and>
     file_GetSection cfg' ''mock-mockaccount'' = Inr sec \<and>
     map_of cfg' sec = Some keys \<and>
     key_String (sec, keys) ''sso_region'' = ''us-east-1'' \<and>
     key_String (sec, keys) ''region'' = ''us-east-1''"
    by (fastforce simp: mock_accountName mockOpts_def mockRegion_def)
  then show ?thesis
    by (simp add: run)
qed

section \<open>Token selection\<close>

lemma scanFiles_step:
  "scanFiles opts env (file # files) (sel, latest) =
     scanFiles opts env files
       (case modTimeOf opts env file of
          None \<Rightarrow> (sel, latest)
        | Some t \<Rightarrow> if t > latest then (Some file, t) else (sel, latest))"
  by (auto simp: modTimeOf_def candidate_def tokenOf_def split: option.splits)

lemma scanFiles_result:
  "scanFiles opts env files (sel, latest) = (sel', latest') \<Longrightarrow>
     ((\<forall>g\<in>set files. \<forall>u. modTimeOf opts env g = Some u \<longrightarrow> u \<le> latest) \<and>
        sel' = sel \<and> latest' = latest) \<or>
     (\<exists>pre fl post. files = pre @ fl # post \<and> sel' = Some fl \<and>
        modTimeOf opts env fl = Some latest' \<and> latest < latest' \<and>
        (\<forall>g\<in>set pre. \<forall>u. modTimeOf opts env g = Some u \<longrightarrow> u < latest') \<and>
        (\<forall>g\<in>set post. \<forall>u. modTimeOf opts env g = Some u \<longrightarrow> u \<le> latest'))"
proof (induction files arbitrary: sel latest)
  case Nil
  then show ?case by simp
next
  case (Cons f files)
  let ?P = "\<lambda>fs sel latest.
     ((\<forall>g\<in>set fs. \<forall>u. modTimeOf opts env g = Some u \<longrightarrow> u \<le> latest) \<and>
        sel' = sel \<and> latest' = latest) \<or>
     (\<exists>pre fl post. fs = pre @ fl # post \<and> sel' = Some fl \<and>
        modTimeOf opts env fl = Some latest' \<and> latest < latest' \<and>
        (\<forall>g\<in>set pre. \<forall>u. modTimeOf opts env g = Some u \<longrightarrow> u < latest') \<and>
        (\<forall>g\<in>set post. \<forall>u. modTimeOf opts env g = Some u \<longrightarrow> u \<le> latest'))"
  show ?case
  proof (cases "\<exists>t. modTimeOf opts env f = Some t \<and> t > latest")
    case True
    then obtain t where t: "modTimeOf opts env f = Some t" "t > latest"
      by blast
    with Cons.prems have "scanFiles opts env files (Some f, t) = (sel', latest')"
      by (simp add: scanFiles_step del: scanFiles.simps)
    from Cons.IH [OF this] have "?P files (Some f) t" .
    then show ?thesis
    proof
      assume "(\<forall>g\<in>set files. \<forall>u. modTimeOf opts env g = Some u \<longrightarrow> u \<le> t) \<and>
        sel' = Some f \<and> latest' = t"
      with t have "f # files = [] @ f # files \<and> sel' = Some f \<and>
        modTimeOf opts env f = Some latest' \<and> latest < latest' \<and>
        (\<forall>g\<in>set []. \<forall>u. modTimeOf opts env g = Some u \<longrightarrow> u < latest') \<and>
        (\<forall>g\<in>set files. \<forall>u. modTimeOf opts env g = Some u \<longrightarrow> u \<le> latest')"
        by simp
      then show ?thesis by blast
    next
      assume "\<exists>pre fl post. files = pre @ fl # post \<and> sel' = Some fl \<and>
        modTimeOf opts env fl = Some latest' \<and> t < latest' \<and>
        (\<forall>g\<in>set pre. \<forall>u. modTimeOf opts env g = Some u \<longrightarrow> u < latest') \<and>
        (\<forall>g\<in>set post. \<forall>u. modTimeOf opts env g = Some u \<longrightarrow> u \<le> latest')"
      then obtain pre fl post where
        s: "files = pre @ fl # post" "sel' = Some fl"
          "modTimeOf opts env fl = Some latest'" "t < latest'"
          "\<forall>g\<in>set pre. \<forall>u. modTimeOf opts env g = Some u \<longrightarrow> u < latest'"
          "\<forall>g\<in>set post. \<forall>u. modTimeOf opts env g = Some u \<longrightarrow> u \<le> latest'"
        by blast
      with t have "f # files = (f # pre) @ fl # post \<and> sel' = Some fl \<and>
        modTimeOf opts env fl = Some latest' \<and> latest < latest' \<and>
        (\<forall>g\<in>set (f # pre). \<forall>u. modTimeOf opts env g = Some u \<longrightarrow> u < latest') \<and>
        (\<forall>g\<in>set post. \<forall>u. modTimeOf opts env g = Some u \<longrightarrow> u \<le> latest')"
        by auto
      then show ?thesis by blast
    qed
  next
    case False
    then have low: "\<forall>u. modTimeOf opts env f = Some u \<longrightarrow> u \<le> latest"
      by auto
    with Cons.prems have "scanFiles opts env files (sel, latest) = (sel', latest')"
      by (auto simp: scanFiles_step simp del: scanFiles.simps split: option.splits if_splits)
    from Cons.IH [OF this] have "?P files sel latest" .
    then show ?thesis
    proof
      assume "(\<forall>g\<in>set files. \<forall>u. modTimeOf opts env g = Some u \<longrightarrow> u \<le> latest) \<and>
        sel' = sel \<and> latest' = latest"
      with low show ?thesis by simp
    next
      assume "\<exists>pre fl post. files = pre @ fl # post \<and> sel' = Some fl \<and>
        modTimeOf opts env fl = Some latest' \<and> latest < latest' \<and>
        (\<forall>g\<in>set pre. \<forall>u. modTimeOf opts env g = Some u \<longrightarrow> u < latest') \<and>
        (\<forall>g\<in>set post. \<forall>u. modTimeOf opts env g = Some u \<longrightarrow> u \<le> latest')"
      then obtain pre fl post where
        s: "files = pre @ fl # post" "sel' = Some fl"
          "modTimeOf opts env fl = Some latest'" "latest < latest'"
          "\<forall>g\<in>set pre. \<forall>u. modTimeOf opts env g = Some u \<longrightarrow> u < latest'"
          "\<forall>g\<in>set post. \<forall>u. modTimeOf opts env g = Some u \<longrightarrow> u \<le> latest'"
        by blast
      with low have "f # files = (f # pre) @ fl # post \<and> sel' = Some fl \<and>
        modTimeOf opts env fl = Some latest' \<and> latest < latest' \<and>
        (\<forall>g\<in>set (f # pre). \<forall>u. modTimeOf opts env g = Some u \<longrightarrow> u < latest') \<and>
        (\<forall>g\<in>set post. \<forall>u. modTimeOf opts env g = Some u \<longrightarrow> u \<le> latest')"
        by fastforce
      then show ?thesis by blast
    qed
  qed
qed

lemma modTimeOf_token:
  "modTimeOf opts env file = Some t \<Longrightarrow> \<exists>token. tokenOf env file = Some token"
  by (auto simp: modTimeOf_def candidate_def split: if_splits option.splits)

lemma readSSOToken_selected:
  assumes "os_ReadDir env = Some files"
    and "fst (scanFiles opts env files (None, 0)) = Some file"
    and "tokenOf env file = Some token"
  shows "readSSOToken opts env = Inr token"
  using assms by (auto simp: readSSOToken_def tokenOf_def split: option.splits)


lemma scanFiles_append:
  "scanFiles opts env (xs @ ys) st = scanFiles opts env ys (scanFiles opts env xs st)"
proof (induction xs arbitrary: st)
  case Nil
  then show ?case by simp
next
  case (Cons x xs)
  obtain sel latest where st: "st = (sel, latest)"
    by (cases st)
  show ?case
    unfolding st append_Cons scanFiles_step by (rule Cons.IH)
qed

lemma scanFiles_ReadDir:
  "scanFiles opts (env\<lparr>os_ReadDir := d\<rparr>) files st = scanFiles opts env files st"
proof (induction files arbitrary: st)
  case Nil
  then show ?case by simp
next
  case (Cons x xs)
  obtain sel latest where st: "st = (sel, latest)"
    by (cases st)
  have "modTimeOf opts (env\<lparr>os_ReadDir := d\<rparr>) x = modTimeOf opts env x"
    by (simp add: modTimeOf_def candidate_def tokenOf_def cong: option.case_cong)
  then show ?case
    unfolding st scanFiles_step by (simp add: Cons.IH)
qed

lemma readSSOToken_skip:
  assumes "os_ReadDir env = Some (pre @ fl # post)" and "modTimeOf opts env fl = None"
  shows "readSSOToken opts env = readSSOToken opts (env\<lparr>os_ReadDir := Some (pre @ post)\<rparr>)"
proof -
  obtain sel latest where st: "scanFiles opts env pre (None, 0) = (sel, latest)"
    by (cases "scanFiles opts env pre (None, 0)")
  have "scanFiles opts env (pre @ fl # post) (None, 0) = scanFiles opts env (pre @ post) (None, 0)"
    using assms(2) by (simp add: scanFiles_append st scanFiles_step del: scanFiles.simps)
  then show ?thesis
    using assms(1) by (simp add: readSSOToken_def scanFiles_ReadDir cong: option.case_cong)
qed

lemma readSSOToken_found:
  assumes "os_ReadDir env = Some files"
    and "list_ex (\<lambda>f. case modTimeOf opts env f of None \<Rightarrow> False | Some t \<Rightarrow> 0 < t) files"
  shows "\<exists>pre fl post t token.
           files = pre @ fl # post \<and> modTimeOf opts env fl = Some t \<and>
           tokenOf env fl = Some token \<and> readSSOToken opts env = Inr token \<and>
           (\<forall>g\<in>set pre. \<forall>u. modTimeOf opts env g = Some u \<longrightarrow> u < t) \<and>
           (\<forall>g\<in>set post. \<forall>u. modTimeOf opts env g = Some u \<longrightarrow> u \<le> t)"
proof -
  obtain sel' latest' where scan: "scanFiles opts env files (None, 0) = (sel', latest')"
    by (cases "scanFiles opts env files (None, 0)")
  from assms(2) obtain f t where "f \<in> set files" "modTimeOf opts env f = Some t" "0 < t"
    by (auto simp: list_ex_iff split: option.splits)
  then have "\<not> (\<forall>g\<in>set files. \<forall>u. modTimeOf opts env g = Some u \<longrightarrow> u \<le> 0)"
    by force
  with scanFiles_result [OF scan] obtain pre fl post where
    s: "files = pre @ fl # post" "sel' = Some fl" "modTimeOf opts env fl = Some latest'"
      "\<forall>g\<in>set pre. \<forall>u. modTimeOf opts env g = Some u \<longrightarrow> u < latest'"
      "\<forall>g\<in>set post. \<forall>u. modTimeOf opts env g = Some u \<longrightarrow> u \<le> latest'"
    by blast
  from modTimeOf_token [OF s(3)] obtain token where token: "tokenOf env fl = Some token"
    by blast
  have "readSSOToken opts env = Inr token"
    using assms(1) _ token by (rule readSSOToken_selected) (simp add: scan s(2))
  with s token show ?thesis
    by blast
qed

lemma readSSOToken_none:
  assumes "os_ReadDir env = Some files"
    and "\<not> list_ex (\<lambda>f. modTimeOf opts env f \<noteq> None) files"
  shows "readSSOToken opts env = Inl TokenNotFound"
proof -
  obtain sel' latest' where scan: "scanFiles opts env files (None, 0) = (sel', latest')"
    by (cases "scanFiles opts env files (None, 0)")
  from assms(2) have "\<forall>g\<in>set files. modTimeOf opts env g = None"
    by (simp add: list_ex_iff)
  with scanFiles_result [OF scan] have "sel' = None"
    by fastforce
  then show ?thesis
    using assms(1) scan by (simp add: readSSOToken_def)
qed

text \<open>
  C2, as the code has it. When the directory can be listed and some qualifying file has a
  modification time after the epoch, \<^verbatim>\<open>readSSOToken\<close> returns the token of a qualifying
  file whose modification time is the greatest among the qualifying files, namely the one
  enumerated first among those of the greatest time: every qualifying file enumerated
  before it is strictly older, every one enumerated after it is not newer.
\<close>

theorem readSSOToken_selects_first_latest:
  assumes "os_ReadDir env = Some files"
    and "list_ex (\<lambda>f. case modTimeOf opts env f of None \<Rightarrow> False | Some t \<Rightarrow> 0 < t) files"
  shows "\<exists>pre fl post t token.
           files = pre @ fl # post \<and> modTimeOf opts env fl = Some t \<and>
           tokenOf env fl = Some token \<and> readSSOToken opts env = Inr token \<and>
           (\<forall>g\<in>set pre. \<forall>u. modTimeOf opts env g = Some u \<longrightarrow> u < t) \<and>
           (\<forall>g\<in>set post. \<forall>u. modTimeOf opts env g = Some u \<longrightarrow> u \<le> t)"
  using assms by (rule readSSOToken_found)

lemmas cache_defs = readSSOToken_def tieCache_def tokenA_def tokenB_def mockOpts_def
  strings_HasSuffix_def modTimeOf_def candidate_def tokenOf_def

theorem readSSOToken_selects_first_latest_witness:
  "os_ReadDir tieCache = Some [''a.json'', ''b.json'', ''c.json''] \<and>
   modTimeOf mockOpts tieCache ''a.json'' = Some 100 \<and>
   readSSOToken mockOpts tieCache = Inr tokenA"
  using readSSOToken_selects_first_latest [of tieCache "[''a.json'', ''b.json'', ''c.json'']" mockOpts]
  by (simp add: cache_defs)

text \<open>
  C2 as stated resolves ties to the file enumerated last. The comparison of line 124 is
  strict, so a later file of the same time does not replace the selected one: of
  \<^verbatim>\<open>a.json\<close> and \<^verbatim>\<open>b.json\<close>, both qualifying and of the same time, the first is selected.
\<close>

theorem tie_selects_last_counterexample:
  "os_ReadDir tieCache = Some [''a.json'', ''b.json'', ''c.json''] \<and>
   candidate mockOpts tieCache ''a.json'' \<and> candidate mockOpts tieCache ''b.json'' \<and>
   \<not> candidate mockOpts tieCache ''c.json'' \<and>
   os_Stat tieCache ''a.json'' = Some 100 \<and> os_Stat tieCache ''b.json'' = Some 100 \<and>
   tokenOf tieCache ''a.json'' = Some tokenA \<and> tokenOf tieCache ''b.json'' = Some tokenB \<and>
   readSSOToken mockOpts tieCache = Inr tokenA \<and> tokenA \<noteq> tokenB"
  by (simp add: cache_defs)

text \<open>
  C8, as the code has it. \<^verbatim>\<open>readSSOToken\<close> returns an error when the directory cannot be
  listed, and when no listed file qualifies with a successful \<^verbatim>\<open>os.Stat\<close>; it returns a
  token when some qualifying file has a modification time after the epoch; and a file
  that is not valid JSON is skipped: the call returns what it returns without that file
  in the listing.
\<close>

theorem readSSOToken_outcome:
  "(os_ReadDir env = None \<longrightarrow> readSSOToken opts env = Inl ReadDirError) \<and>
   (os_ReadDir env = Some files \<and> \<not> list_ex (\<lambda>f. modTimeOf opts env f \<noteq> None) files \<longrightarrow>
      readSSOToken opts env = Inl TokenNotFound) \<and>
   (os_ReadDir env = Some files \<and>
    list_ex (\<lambda>f. case modTimeOf opts env f of None \<Rightarrow> False | Some t \<Rightarrow> 0 < t) files \<longrightarrow>
      (\<exists>token. readSSOToken opts env = Inr token)) \<and>
   (os_ReadDir env = Some (pre @ fl # post) \<and>
    os_ReadFile env fl = Some data \<and> json_Unmarshal env data = None \<longrightarrow>
      readSSOToken opts env = readSSOToken opts (env\<lparr>os_ReadDir := Some (pre @ post)\<rparr>))"
proof (intro conjI impI)
  assume "os_ReadDir env = None"
  then show "readSSOToken opts env = Inl ReadDirError"
    by (simp add: readSSOToken_def)
next
  assume "os_ReadDir env = Some files \<and> \<not> list_ex (\<lambda>f. modTimeOf opts env f \<noteq> None) files"
  then show "readSSOToken opts env = Inl TokenNotFound"
    using readSSOToken_none by blast
next
  assume "os_ReadDir env = Some files \<and>
    list_ex (\<lambda>f. case modTimeOf opts env f of None \<Rightarrow> False | Some t \<Rightarrow> 0 < t) files"
  then show "\<exists>token. readSSOToken opts env = Inr token"
    using readSSOToken_found by blast
next
  assume a: "os_ReadDir env = Some (pre @ fl # post) \<and>
    os_ReadFile env fl = Some data \<and> json_Unmarshal env data = None"
  then have "modTimeOf opts env fl = None"
    by (simp add: modTimeOf_def candidate_def tokenOf_def)
  with a show "readSSOToken opts env = readSSOToken opts (env\<lparr>os_ReadDir := Some (pre @ post)\<rparr>)"
    using readSSOToken_skip by blast
qed

theorem readSSOToken_outcome_witness:
  "readSSOToken mockOpts (tieCache\<lparr>os_ReadDir := None\<rparr>) = Inl ReadDirError \<and>
   readSSOToken mockOpts (tieCache\<lparr>os_ReadDir := Some [''c.json'', ''notes.txt'']\<rparr>)
     = Inl TokenNotFound \<and>
   (\<exists>token. readSSOToken mockOpts tieCache = Inr token) \<and>
   readSSOToken mockOpts (tieCache\<lparr>os_ReadDir := Some ([''a.json''] @ ''c.json'' # [])\<rparr>)
     = readSSOToken mockOpts (tieCache\<lparr>os_ReadDir := Some [''a.json'']\<rparr>)"
  using readSSOToken_outcome [of "tieCache\<lparr>os_ReadDir := None\<rparr>" mockOpts]
    readSSOToken_outcome [of "tieCache\<lparr>os_ReadDir := Some [''c.json'', ''notes.txt'']\<rparr>" mockOpts
      "[''c.json'', ''notes.txt'']"]
    readSSOToken_outcome [of tieCache mockOpts "[''a.json'', ''b.json'', ''c.json'']"]
    readSSOToken_outcome [of "tieCache\<lparr>os_ReadDir := Some ([''a.json''] @ ''c.json'' # [])\<rparr>"
      mockOpts _ "[''a.json'']" "''c.json''" "[]" "''{''"]
  by (simp add: cache_defs)

text \<open>
  C8 as stated has an error exactly when the directory is unreadable or no file
  qualifies. A qualifying file is also passed over when its \<^verbatim>\<open>os.Stat\<close> fails (the guard
  \<^verbatim>\<open>err == nil\<close> of line 124) and when its modification time is not after the epoch
  (\<^verbatim>\<open>latestModTime\<close> starts at 0 and the comparison is strict): the call then fails
  although \<^verbatim>\<open>a.json\<close> qualifies.
\<close>

theorem qualifying_file_not_found_counterexample:
  "candidate mockOpts (tieCache\<lparr>os_Stat := (\<lambda>file. Some 0)\<rparr>) ''a.json'' \<and>
   readSSOToken mockOpts (tieCache\<lparr>os_Stat := (\<lambda>file. Some 0)\<rparr>) = Inl TokenNotFound \<and>
   candidate mockOpts (tieCache\<lparr>os_Stat := (\<lambda>file. None)\<rparr>) ''a.json'' \<and>
   readSSOToken mockOpts (tieCache\<lparr>os_Stat := (\<lambda>file. None)\<rparr>) = Inl TokenNotFound"
  by (simp add: cache_defs)

section \<open>Account enumeration\<close>

lemma roleInList_listed:
  "\<forall>r\<in>set roles. RoleInfo_RoleName r \<noteq> None \<Longrightarrow>
     roleInList opts roles = Inr (roleListed opts roles)"
  by (induction roles) (auto simp: roleListed_def)

lemma validateRolePages_pages:
  assumes "\<forall>r\<in>set (concat (map RoleList rps)). RoleInfo_RoleName r \<noteq> None"
  shows "pages_of (ListAccountRoles client accessToken accountID) Roles_NextToken nextToken rps \<Longrightarrow>
     validateRolePages client opts accessToken accountID nextToken
       = Some (Inr (roleListed opts (concat (map RoleList rps))))"
  using assms
proof (induction rps arbitrary: nextToken)
  case Nil
  then show ?case by simp
next
  case (Cons p ps)
  from Cons.prems(1) have call: "ListAccountRoles client accessToken accountID nextToken = Inr p"
    by simp
  from Cons.prems(2) have here: "roleInList opts (RoleList p) = Inr (roleListed opts (RoleList p))"
    by (intro roleInList_listed) simp
  show ?case
  proof (cases "roleListed opts (RoleList p)")
    case True
    then show ?thesis
      by (subst validateRolePages.simps) (simp add: call here roleListed_def)
  next
    case False
    show ?thesis
    proof (cases "Roles_NextToken p")
      case None
      with Cons.prems(1) have "ps = []" by simp
      with None False show ?thesis
        by (subst validateRolePages.simps) (simp add: call here)
    next
      case (Some t)
      with Cons.prems(1) have
        "pages_of (ListAccountRoles client accessToken accountID) Roles_NextToken (Some t) ps"
        by simp
      moreover from Cons.prems(2) have
        "\<forall>r\<in>set (concat (map RoleList ps)). RoleInfo_RoleName r \<noteq> None"
        by simp
      ultimately have "validateRolePages client opts accessToken accountID (Some t)
          = Some (Inr (roleListed opts (concat (map RoleList ps))))"
        by (rule Cons.IH)
      with Some False show ?thesis
        by (subst validateRolePages.simps) (simp add: call here roleListed_def)
    qed
  qed
qed

lemma appendAccounts_filter:
  "\<forall>a\<in>set xs. checkAccount client opts accessToken a = Some (Inr (keep a)) \<Longrightarrow>
     appendAccounts client opts accessToken xs acc = Some (Inr (acc @ filter keep xs))"
  by (induction xs arbitrary: acc) auto

lemma listAccountPages_pages:
  assumes "\<forall>a\<in>set (concat (map AccountList pages)).
             checkAccount client opts accessToken a = Some (Inr (keep a))"
  shows "pages_of (ListAccounts client accessToken) NextToken nextToken pages \<Longrightarrow>
     listAccountPages client opts accessToken acc nextToken
       = Some (Inr (acc @ concat (map (\<lambda>p. filter keep (AccountList p)) pages)))"
  using assms
proof (induction pages arbitrary: acc nextToken)
  case Nil
  then show ?case by simp
next
  case (Cons p ps)
  from Cons.prems(1) have call: "ListAccounts client accessToken nextToken = Inr p"
    by simp
  from Cons.prems(2) have here:
    "appendAccounts client opts accessToken (AccountList p) acc
       = Some (Inr (acc @ filter keep (AccountList p)))"
    by (intro appendAccounts_filter) simp
  show ?case
  proof (cases "NextToken p")
    case None
    with Cons.prems(1) have "ps = []" by simp
    with None show ?thesis
      by (subst listAccountPages.simps) (simp add: call here)
  next
    case (Some t)
    with Cons.prems(1) have "pages_of (ListAccounts client accessToken) NextToken (Some t) ps"
      by simp
    moreover from Cons.prems(2) have
      "\<forall>a\<in>set (concat (map AccountList ps)).
         checkAccount client opts accessToken a = Some (Inr (keep a))"
      by simp
    ultimately have "listAccountPages client opts accessToken
        (acc @ filter keep (AccountList p)) (Some t)
        = Some (Inr ((acc @ filter keep (AccountList p))
            @ concat (map (\<lambda>p. filter keep (AccountList p)) ps)))"
      by (rule Cons.IH)
    with Some show ?thesis
      by (subst listAccountPages.simps) (simp add: call here)
  qed
qed

lemma checkAccount_no_filter:
  "RoleName opts = [] \<Longrightarrow> checkAccount client opts accessToken a = Some (Inr True)"
  by (simp add: checkAccount_def)

lemma checkAccount_roles:
  assumes "RoleName opts \<noteq> []" and "AccountId a = Some accountId" and "AccountName a \<noteq> None"
    and "pages_of (ListAccountRoles client accessToken accountId) Roles_NextToken None rps"
    and "\<forall>r\<in>set (concat (map RoleList rps)). RoleInfo_RoleName r \<noteq> None"
  shows "checkAccount client opts accessToken a
           = Some (Inr (roleListed opts (concat (map RoleList rps))))"
  using assms validateRolePages_pages [OF assms(5,4), of opts]
  by (auto simp: checkAccount_def validateRoleForAccount_def)


lemmas client_defs = mockClient_def mockPages_def mockRolePages_def mockAccount_def
  anotherAccount_def mockOpts_def roleListed_def

lemma mock_pages: "pages_of (ListAccounts mockClient ''secret-a'') NextToken None mockPages"
  by (simp add: client_defs)

lemma mock_checkAccount:
  "checkAccount mockClient mockOpts ''secret-a'' mockAccount = Some (Inr True)"
  "checkAccount mockClient mockOpts ''secret-a'' anotherAccount = Some (Inr False)"
proof -
  have "checkAccount mockClient mockOpts ''secret-a'' mockAccount
      = Some (Inr (roleListed mockOpts (concat (map RoleList (mockRolePages ''123456789012'')))))"
    by (rule checkAccount_roles [where accountId = "''123456789012''"])
      (simp_all add: client_defs)
  then show "checkAccount mockClient mockOpts ''secret-a'' mockAccount = Some (Inr True)"
    by (simp add: client_defs)
  have "checkAccount mockClient mockOpts ''secret-a'' anotherAccount
      = Some (Inr (roleListed mockOpts (concat (map RoleList (mockRolePages ''123456789013'')))))"
    by (rule checkAccount_roles [where accountId = "''123456789013''"])
      (simp_all add: client_defs)
  then show "checkAccount mockClient mockOpts ''secret-a'' anotherAccount = Some (Inr False)"
    by (simp add: client_defs)
qed

text \<open>
  C5. With a role-name filter set, when the account listing returns its pages without
  error and, for every enumerated account, the id and name are not nil and the role
  listing returns its pages without error and with no nil role name, \<^verbatim>\<open>listSSOAccounts\<close>
  returns the enumerated accounts, in order and each as often as it was enumerated, whose
  remote role list contains a role named exactly as the filter: an enumerated account is
  in the result if and only if its role list has such a role.
\<close>

theorem listSSOAccounts_role_filter:
  assumes "RoleName opts \<noteq> []"
    and "pages_of (ListAccounts client accessToken) NextToken None pages"
    and "\<forall>a\<in>set (concat (map AccountList pages)).
           \<exists>accountId. AccountId a = Some accountId \<and> AccountName a \<noteq> None \<and>
             pages_of (ListAccountRoles client accessToken accountId) Roles_NextToken None
               (rolePages accountId) \<and>
             (\<forall>r\<in>set (concat (map RoleList (rolePages accountId))). RoleInfo_RoleName r \<noteq> None)"
  shows "listSSOAccounts client opts accessToken =
           Some (Inr (filter
             (\<lambda>a. case AccountId a of
                     None \<Rightarrow> False
                   | Some accountId \<Rightarrow> roleListed opts (concat (map RoleList (rolePages accountId))))
             (concat (map AccountList pages))))"
proof -
  let ?keep = "\<lambda>a. case AccountId a of
                     None \<Rightarrow> False
                   | Some accountId \<Rightarrow> roleListed opts (concat (map RoleList (rolePages accountId)))"
  have "\<forall>a\<in>set (concat (map AccountList pages)).
          checkAccount client opts accessToken a = Some (Inr (?keep a))"
  proof
    fix a
    assume "a \<in> set (concat (map AccountList pages))"
    with assms(3) obtain accountId where
      a: "AccountId a = Some accountId" "AccountName a \<noteq> None"
        "pages_of (ListAccountRoles client accessToken accountId) Roles_NextToken None
           (rolePages accountId)"
        "\<forall>r\<in>set (concat (map RoleList (rolePages accountId))). RoleInfo_RoleName r \<noteq> None"
      by blast
    from checkAccount_roles [OF assms(1) a]
    show "checkAccount client opts accessToken a = Some (Inr (?keep a))"
      by (simp add: a(1))
  qed
  from listAccountPages_pages [OF this assms(2), of "[]"]
  show ?thesis
    by (simp add: listSSOAccounts_def filter_concat comp_def)
qed


theorem listSSOAccounts_role_filter_witness:
  "RoleName mockOpts \<noteq> [] \<and>
   pages_of (ListAccounts mockClient ''secret-a'') NextToken None mockPages \<and>
   concat (map AccountList mockPages) = [mockAccount, anotherAccount] \<and>
   roleListed mockOpts (concat (map RoleList (mockRolePages ''123456789012''))) \<and>
   \<not> roleListed mockOpts (concat (map RoleList (mockRolePages ''123456789013''))) \<and>
   listSSOAccounts mockClient mockOpts ''secret-a'' = Some (Inr [mockAccount])"
  using listSSOAccounts_role_filter [of mockOpts mockClient "''secret-a''" mockPages mockRolePages]
  by (simp add: client_defs)

lemma mock_listSSOAccounts:
  "listSSOAccounts mockClient mockOpts ''secret-a'' = Some (Inr [mockAccount])"
proof -
  have "\<forall>a\<in>set (concat (map AccountList mockPages)).
      checkAccount mockClient mockOpts ''secret-a'' a = Some (Inr (a = mockAccount))"
    by (simp add: mockPages_def mock_checkAccount) (simp add: mockAccount_def anotherAccount_def)
  from listAccountPages_pages [OF this mock_pages, of "[]"]
  show ?thesis
    by (simp add: listSSOAccounts_def mockPages_def) (simp add: mockAccount_def anotherAccount_def)
qed

text \<open>
  C7, as the code has it. When the listing calls, each passing the continuation token of
  the page before, return the pages \<open>pages\<close> without error, the last being the first with
  no continuation token, \<^verbatim>\<open>listSSOAccounts\<close> returns: with no role-name filter, the
  concatenation of all the pages' items in order; with a filter, when the role check of
  every item returns, the concatenation in order of the items of each page that pass it.
\<close>

theorem listSSOAccounts_pages:
  assumes "pages_of (ListAccounts client accessToken) NextToken None pages"
  shows "(RoleName opts = [] \<longrightarrow>
            listSSOAccounts client opts accessToken = Some (Inr (concat (map AccountList pages)))) \<and>
         ((\<forall>a\<in>set (concat (map AccountList pages)).
              checkAccount client opts accessToken a = Some (Inr (keep a))) \<longrightarrow>
            listSSOAccounts client opts accessToken
              = Some (Inr (concat (map (\<lambda>p. filter keep (AccountList p)) pages))))"
proof (intro conjI impI)
  assume "RoleName opts = []"
  then have "\<forall>a\<in>set (concat (map AccountList pages)).
      checkAccount client opts accessToken a = Some (Inr ((\<lambda>a. True) a))"
    by (simp add: checkAccount_no_filter)
  from listAccountPages_pages [OF this assms, of "[]"]
  show "listSSOAccounts client opts accessToken = Some (Inr (concat (map AccountList pages)))"
    by (simp add: listSSOAccounts_def)
next
  assume "\<forall>a\<in>set (concat (map AccountList pages)).
      checkAccount client opts accessToken a = Some (Inr (keep a))"
  from listAccountPages_pages [OF this assms, of "[]"]
  show "listSSOAccounts client opts accessToken
      = Some (Inr (concat (map (\<lambda>p. filter keep (AccountList p)) pages)))"
    by (simp add: listSSOAccounts_def)
qed

theorem listSSOAccounts_pages_witness:
  "pages_of (ListAccounts mockClient ''secret-a'') NextToken None mockPages \<and>
   listSSOAccounts mockClient (mockOpts\<lparr>RoleName := []\<rparr>) ''secret-a''
     = Some (Inr [mockAccount, anotherAccount]) \<and>
   checkAccount mockClient mockOpts ''secret-a'' mockAccount = Some (Inr True) \<and>
   checkAccount mockClient mockOpts ''secret-a'' anotherAccount = Some (Inr False) \<and>
   listSSOAccounts mockClient mockOpts ''secret-a'' = Some (Inr [mockAccount])"
proof -
  have "listSSOAccounts mockClient (mockOpts\<lparr>RoleName := []\<rparr>) ''secret-a''
     = Some (Inr [mockAccount, anotherAccount])"
    using listSSOAccounts_pages [OF mock_pages, of "mockOpts\<lparr>RoleName := []\<rparr>"]
    by (simp add: mockPages_def)
  moreover have "listSSOAccounts mockClient mockOpts ''secret-a'' = Some (Inr [mockAccount])"
    using listSSOAccounts_pages [OF mock_pages, of mockOpts "\<lambda>a. a = mockAccount"]
    by (simp add: mockPages_def mock_checkAccount) (simp add: mockAccount_def anotherAccount_def)
  ultimately show ?thesis
    by (simp add: mock_pages mock_checkAccount)
qed

text \<open>
  C7 as stated returns all the pages' items. With the role-name filter set (the option is
  required on the command line), an item whose role check fails is not appended: the two
  pages hold two accounts and the call returns one.
\<close>

theorem listSSOAccounts_all_items_counterexample:
  "pages_of (ListAccounts mockClient ''secret-a'') NextToken None mockPages \<and>
   concat (map AccountList mockPages) = [mockAccount, anotherAccount] \<and>
   listSSOAccounts mockClient mockOpts ''secret-a'' = Some (Inr [mockAccount])"
  by (simp add: mock_pages mock_listSSOAccounts) (simp add: mockPages_def)

end
